theory Spec2Isabelle
  imports Main "HOL-Library.Sublist"
begin

section \<open>Paths\<close>

text \<open>
  A path is the list of its components below the root; the root directory is the empty
  list. Paths are absolute and normalised (no symbolic links, no \<open>..\<close>), so
  \<open>Path.resolve()\<close> is the identity. A component is a single name.
\<close>

type_synonym path = "string list"

definition parent :: "path \<Rightarrow> path" where
  "parent p = butlast p"

definition name :: "path \<Rightarrow> string" where
  "name p = (if p = [] then [] else last p)"

text \<open>\<open>p.joinpath(Path(n))\<close> for a name \<open>n\<close>; the empty name joins to \<open>p\<close> itself.\<close>

definition name_parts :: "path \<Rightarrow> path" where
  "name_parts p = (if p = [] then [] else [last p])"

definition joinpath :: "path \<Rightarrow> string \<Rightarrow> path" where
  "joinpath p n = p @ [n]"

text \<open>
  \<open>PurePath.suffix\<close> and \<open>PurePath.stem\<close>: with \<open>i\<close> the index of the last dot
  of the name, the suffix is \<open>name[i:]\<close> when \<open>0 < i < len(name) - 1\<close> and empty
  otherwise; the stem is the rest.
\<close>

definition rfind :: "char \<Rightarrow> string \<Rightarrow> nat option" where
  "rfind c s =
     (if c \<in> set s then Some (length s - 1 - length (takeWhile (\<lambda>x. x \<noteq> c) (rev s)))
      else None)"

definition has_suffix :: "string \<Rightarrow> bool" where
  "has_suffix n = (case rfind (CHR ''.'') n of
                     None \<Rightarrow> False
                   | Some i \<Rightarrow> 0 < i \<and> i + 1 < length n)"

definition py_suffix :: "string \<Rightarrow> string" where
  "py_suffix n = (if has_suffix n then drop (the (rfind (CHR ''.'') n)) n else [])"

definition py_stem :: "string \<Rightarrow> string" where
  "py_stem n = (if has_suffix n then take (the (rfind (CHR ''.'') n)) n else n)"

text \<open>Decimal formatting of a counter, as an f-string does it.\<close>

definition digit :: "nat \<Rightarrow> char" where
  "digit d = ''0123456789'' ! d"

fun str_nat :: "nat \<Rightarrow> string" where
  "str_nat n = (if n < 10 then [digit n] else str_nat (n div 10) @ [digit (n mod 10)])"

declare str_nat.simps [simp del]

text \<open>\<open>str(path)\<close> and \<open>Path(string)\<close>.\<close>

definition str_path :: "path \<Rightarrow> string" where
  "str_path p = (if p = [] then ''/'' else concat (map (\<lambda>c. CHR ''/'' # c) p))"

fun split_sep :: "string \<Rightarrow> string \<Rightarrow> string list" where
  "split_sep acc [] = [rev acc]"
| "split_sep acc (c # cs) =
     (if c = CHR ''/'' then rev acc # split_sep [] cs else split_sep (c # acc) cs)"

text \<open>
  \<open>Path(s)\<close> drops empty components and single dots. The working directory is taken
  to be the root, so a relative string names the same node as the absolute one.
\<close>

definition Path :: "string \<Rightarrow> path" where
  "Path s = filter (\<lambda>c. c \<noteq> [] \<and> c \<noteq> ''.'') (split_sep [] s)"

section \<open>The filesystem\<close>

text \<open>
  A node is a regular file with its bytes, or a directory with a flag saying whether
  entries may be created and removed in it. One device, no symbolic links.
\<close>

datatype node = File string | Dir bool

record filesys =
  nodes :: "path \<Rightarrow> node option"

datatype error =
    FileNotFoundError
  | FileExistsError
  | NotADirectoryError
  | IsADirectoryError
  | PermissionError
  | InvalidArgument
  | SameFileError
  | ShutilError
  | AttributeError
  | TypeError

definition exists :: "filesys \<Rightarrow> path \<Rightarrow> bool" where
  "exists fs p = (nodes fs p \<noteq> None)"

definition is_dir :: "filesys \<Rightarrow> path \<Rightarrow> bool" where
  "is_dir fs p = (case nodes fs p of Some (Dir w) \<Rightarrow> True | _ \<Rightarrow> False)"

definition is_file :: "filesys \<Rightarrow> path \<Rightarrow> bool" where
  "is_file fs p = (case nodes fs p of Some (File c) \<Rightarrow> True | _ \<Rightarrow> False)"

definition writable :: "filesys \<Rightarrow> path \<Rightarrow> bool" where
  "writable fs p = (case nodes fs p of Some (Dir w) \<Rightarrow> w | _ \<Rightarrow> False)"

text \<open>
  \<open>stat().st_size\<close>: the length of a file. The size the platform reports for a
  directory is not modelled beyond a fixed value.
\<close>

definition st_size :: "filesys \<Rightarrow> path \<Rightarrow> nat" where
  "st_size fs p = (case nodes fs p of Some (File c) \<Rightarrow> length c | _ \<Rightarrow> 4096)"

definition put :: "filesys \<Rightarrow> path \<Rightarrow> node \<Rightarrow> filesys" where
  "put fs p n = fs\<lparr>nodes := (nodes fs)(p \<mapsto> n)\<rparr>"

definition remove :: "filesys \<Rightarrow> path \<Rightarrow> filesys" where
  "remove fs p = fs\<lparr>nodes := (nodes fs)(p := None)\<rparr>"

text \<open>
  A well-formed filesystem is a finite tree: the root is a directory and every other
  node lies in a directory.
\<close>

definition wf_fs :: "filesys \<Rightarrow> bool" where
  "wf_fs fs \<longleftrightarrow>
     finite (dom (nodes fs)) \<and> is_dir fs [] \<and>
     (\<forall>p \<in> dom (nodes fs). p = [] \<or> is_dir fs (parent p))"

section \<open>PathNamer\<close>

text \<open>The candidate \<open>parent / f"{stem}_{counter}{suffix}"\<close>.\<close>

definition candidate :: "path \<Rightarrow> string \<Rightarrow> string \<Rightarrow> nat \<Rightarrow> path" where
  "candidate par stm suf counter =
     joinpath par (stm @ ''_'' @ str_nat counter @ suf)"

text \<open>The \<open>while True\<close> loop of \<open>_unique_path_if_exists\<close>; not returning is \<open>None\<close>.\<close>

partial_function (option) unique_loop ::
  "filesys \<Rightarrow> path \<Rightarrow> string \<Rightarrow> string \<Rightarrow> nat \<Rightarrow> path option" where
  "unique_loop fs par stm suf counter =
     (if \<not> exists fs (candidate par stm suf counter)
      then Some (candidate par stm suf counter)
      else unique_loop fs par stm suf (counter + 1))"

definition unique_path_if_exists :: "filesys \<Rightarrow> path \<Rightarrow> path option" where
  "unique_path_if_exists fs p =
     (if \<not> exists fs p then Some p
      else unique_loop fs (parent p) (py_stem (name p)) (py_suffix (name p)) 1)"

text \<open>The \<open>n\<close>-th candidate of a path.\<close>

definition sibling :: "path \<Rightarrow> nat \<Rightarrow> path" where
  "sibling p n = candidate (parent p) (py_stem (name p)) (py_suffix (name p)) n"

section \<open>Filesystem operations\<close>

text \<open>
  Each operation is the system call or library routine of the same name, with every
  error it raises as a value. An operation that fails part-way returns the state it
  leaves behind together with the error.
\<close>

definition os_mkdir :: "filesys \<Rightarrow> path \<Rightarrow> error + filesys" where
  "os_mkdir fs p =
     (case nodes fs (parent p) of
        None \<Rightarrow> Inl FileNotFoundError
      | Some (File c) \<Rightarrow> Inl NotADirectoryError
      | Some (Dir w) \<Rightarrow>
          if exists fs p then Inl FileExistsError
          else if \<not> w then Inl PermissionError
          else Inr (put fs p (Dir True)))"

text \<open>\<open>self.mkdir(parents=False, exist_ok=True)\<close>.\<close>

definition mkdir_exist_ok :: "filesys \<Rightarrow> path \<Rightarrow> filesys \<times> error option" where
  "mkdir_exist_ok fs p =
     (case os_mkdir fs p of
        Inr fs' \<Rightarrow> (fs', None)
      | Inl e \<Rightarrow>
          if e = FileNotFoundError then (fs, Some e)
          else if is_dir fs p then (fs, None)
          else (fs, Some e))"

text \<open>\<open>Path.mkdir(parents=True, exist_ok=True)\<close>.\<close>

function path_mkdir :: "filesys \<Rightarrow> path \<Rightarrow> filesys \<times> error option" where
  "path_mkdir fs p =
     (case os_mkdir fs p of
        Inr fs' \<Rightarrow> (fs', None)
      | Inl e \<Rightarrow>
          if e = FileNotFoundError then
            (if parent p = p then (fs, Some e)
             else (case path_mkdir fs (parent p) of
                     (fs1, Some e1) \<Rightarrow> (fs1, Some e1)
                   | (fs1, None) \<Rightarrow> mkdir_exist_ok fs1 p))
          else if is_dir fs p then (fs, None)
          else (fs, Some e))"
  by pat_completeness auto
termination
proof (relation "measure (\<lambda>(fs, p). length p)")
  show "wf (measure (\<lambda>(fs, p). length p))" by simp
next
  fix fs :: filesys and p :: path and a :: error
  assume "parent p \<noteq> p"
  then have "p \<noteq> []" by (auto simp: parent_def)
  then show "((fs, parent p), (fs, p)) \<in> measure (\<lambda>(fs, p). length p)"
    by (simp add: parent_def)
qed

declare path_mkdir.simps [simp del]

definition os_unlink :: "filesys \<Rightarrow> path \<Rightarrow> error + filesys" where
  "os_unlink fs p =
     (case nodes fs p of
        None \<Rightarrow> Inl FileNotFoundError
      | Some n \<Rightarrow>
          if \<not> writable fs (parent p) then Inl PermissionError
          else (case n of Dir w \<Rightarrow> Inl IsADirectoryError | File c \<Rightarrow> Inr (remove fs p)))"

definition read_text :: "filesys \<Rightarrow> path \<Rightarrow> error + string" where
  "read_text fs p =
     (case nodes fs p of
        None \<Rightarrow> Inl FileNotFoundError
      | Some (Dir w) \<Rightarrow> Inl IsADirectoryError
      | Some (File c) \<Rightarrow> Inr c)"

text \<open>Opening for writing and writing the whole text: an existing file is overwritten.\<close>

definition write_text :: "filesys \<Rightarrow> path \<Rightarrow> string \<Rightarrow> error + filesys" where
  "write_text fs p c =
     (case nodes fs p of
        Some (Dir w) \<Rightarrow> Inl IsADirectoryError
      | Some (File old) \<Rightarrow> Inr (put fs p (File c))
      | None \<Rightarrow>
          (case nodes fs (parent p) of
             None \<Rightarrow> Inl FileNotFoundError
           | Some (File x) \<Rightarrow> Inl NotADirectoryError
           | Some (Dir w) \<Rightarrow> if w then Inr (put fs p (File c)) else Inl PermissionError))"

text \<open>Renaming a directory carries its subtree along.\<close>

definition move_tree :: "filesys \<Rightarrow> path \<Rightarrow> path \<Rightarrow> filesys" where
  "move_tree fs src dst =
     fs\<lparr>nodes := (\<lambda>q. if prefix dst q then nodes fs (src @ drop (length dst) q)
                       else if prefix src q then None
                       else nodes fs q)\<rparr>"

text \<open>
  \<open>os.rename\<close>. A regular file replaces an existing regular file. Renaming a
  directory onto an existing path is reported as an error (replacing an empty directory
  is not modelled; \<open>shutil.move\<close> never asks for it).
\<close>

definition os_rename :: "filesys \<Rightarrow> path \<Rightarrow> path \<Rightarrow> error + filesys" where
  "os_rename fs src dst =
     (case nodes fs src of
        None \<Rightarrow> Inl FileNotFoundError
      | Some n \<Rightarrow>
          (case nodes fs (parent dst) of
             None \<Rightarrow> Inl FileNotFoundError
           | Some (File x) \<Rightarrow> Inl NotADirectoryError
           | Some (Dir wd) \<Rightarrow>
               if src = dst then Inr fs
               else if \<not> (wd \<and> writable fs (parent src)) then Inl PermissionError
               else (case n of
                       File c \<Rightarrow>
                         if is_dir fs dst then Inl IsADirectoryError
                         else Inr (put (remove fs src) dst (File c))
                     | Dir w \<Rightarrow>
                         if prefix src dst then Inl InvalidArgument
                         else if is_dir fs dst then Inl FileExistsError
                         else if exists fs dst then Inl NotADirectoryError
                         else Inr (move_tree fs src dst))))"

text \<open>\<open>shutil.copy2\<close> of a regular file.\<close>

definition copy2 :: "filesys \<Rightarrow> path \<Rightarrow> path \<Rightarrow> error + filesys" where
  "copy2 fs src dst =
     (let d = (if is_dir fs dst then dst @ name_parts src else dst) in
      if src = d \<and> exists fs src then Inl SameFileError
      else (case read_text fs src of
              Inl e \<Rightarrow> Inl e
            | Inr c \<Rightarrow> write_text fs d c))"

text \<open>
  The second half of \<open>shutil.move\<close>: rename, and when that fails copy and delete.
  For a directory source whose rename fails only the refusal to move a directory into
  itself is modelled; the recursive copy is not, and the rename's error is raised.
\<close>

definition move_to :: "filesys \<Rightarrow> path \<Rightarrow> path \<Rightarrow> filesys \<times> error option" where
  "move_to fs src real_dst =
     (case os_rename fs src real_dst of
        Inr fs' \<Rightarrow> (fs', None)
      | Inl e \<Rightarrow>
          if is_dir fs src then
            (if prefix src real_dst then (fs, Some ShutilError) else (fs, Some e))
          else (case copy2 fs src real_dst of
                  Inl e2 \<Rightarrow> (fs, Some e2)
                | Inr fs1 \<Rightarrow>
                    (case os_unlink fs1 src of
                       Inl e3 \<Rightarrow> (fs1, Some e3)
                     | Inr fs2 \<Rightarrow> (fs2, None))))"

definition shutil_move :: "filesys \<Rightarrow> path \<Rightarrow> path \<Rightarrow> filesys \<times> error option" where
  "shutil_move fs src dst =
     (if is_dir fs dst then
        (if src = dst then
           (case os_rename fs src dst of
              Inl e \<Rightarrow> (fs, Some e)
            | Inr fs' \<Rightarrow> (fs', None))
         else
           (let real_dst = dst @ name_parts src in
            if exists fs real_dst then (fs, Some ShutilError)
            else move_to fs src real_dst))
      else move_to fs src dst)"

section \<open>JSON\<close>

datatype json =
    JNull
  | JBool bool
  | JNum int
  | JStr string
  | JArr "json list"
  | JObj "(string \<times> json) list"

text \<open>\<open>dict.get\<close>: the last binding of a key is the one a dictionary holds.\<close>

definition dict_get :: "(string \<times> json) list \<Rightarrow> string \<Rightarrow> json option" where
  "dict_get kv k = map_of (rev kv) k"

text \<open>
  \<open>json.dumps(obj, indent=n)\<close>: strings are escaped to ASCII, items are separated by
  a comma and a newline and indented by \<open>n\<close> spaces per nesting level, keys are
  followed by a colon and a space.
\<close>

definition hexdigit :: "nat \<Rightarrow> char" where
  "hexdigit d = ''0123456789abcdef'' ! d"

definition escape_char :: "char \<Rightarrow> string" where
  "escape_char c =
     (if c = CHR 0x22 then [CHR 0x5C, CHR 0x22]
      else if c = CHR 0x5C then [CHR 0x5C, CHR 0x5C]
      else if c = CHR 0x0A then [CHR 0x5C, CHR ''n'']
      else if c = CHR 0x0D then [CHR 0x5C, CHR ''r'']
      else if c = CHR 0x09 then [CHR 0x5C, CHR ''t'']
      else if c = CHR 0x08 then [CHR 0x5C, CHR ''b'']
      else if c = CHR 0x0C then [CHR 0x5C, CHR ''f'']
      else if 32 \<le> (of_char c :: nat) \<and> (of_char c :: nat) \<le> 126 then [c]
      else [CHR 0x5C, CHR ''u'', CHR ''0'', CHR ''0'',
            hexdigit ((of_char c :: nat) div 16), hexdigit ((of_char c :: nat) mod 16)])"

definition dumps_str :: "string \<Rightarrow> string" where
  "dumps_str s = CHR 0x22 # concat (map escape_char s) @ [CHR 0x22]"

definition str_int :: "int \<Rightarrow> string" where
  "str_int i = (if i < 0 then CHR ''-'' # str_nat (nat (- i)) else str_nat (nat i))"

definition newline_indent :: "nat \<Rightarrow> nat \<Rightarrow> string" where
  "newline_indent ind lvl = CHR 0x0A # replicate (ind * lvl) CHR '' ''"

fun join_with :: "string \<Rightarrow> string list \<Rightarrow> string" where
  "join_with sep [] = []"
| "join_with sep [x] = x"
| "join_with sep (x # y # ys) = x @ sep @ join_with sep (y # ys)"

fun dumps_at :: "nat \<Rightarrow> nat \<Rightarrow> json \<Rightarrow> string" where
  "dumps_at ind lvl JNull = ''null''"
| "dumps_at ind lvl (JBool b) = (if b then ''true'' else ''false'')"
| "dumps_at ind lvl (JNum i) = str_int i"
| "dumps_at ind lvl (JStr s) = dumps_str s"
| "dumps_at ind lvl (JArr xs) =
     (if xs = [] then ''[]''
      else ''['' @ newline_indent ind (lvl + 1)
           @ join_with (CHR '','' # newline_indent ind (lvl + 1))
               (map (dumps_at ind (lvl + 1)) xs)
           @ newline_indent ind lvl @ '']'')"
| "dumps_at ind lvl (JObj kvs) =
     (if kvs = [] then ''{}''
      else ''{'' @ newline_indent ind (lvl + 1)
           @ join_with (CHR '','' # newline_indent ind (lvl + 1))
               (map (\<lambda>(k, v). dumps_str k @ '': '' @ dumps_at ind (lvl + 1) v) kvs)
           @ newline_indent ind lvl @ ''}'')"

definition py_dumps :: "nat \<Rightarrow> json \<Rightarrow> string" where
  "py_dumps ind j = dumps_at ind 0 j"

text \<open>
  \<open>json.loads\<close> is a parameter of the functions that read a journal: a decoder maps a
  text to the value it denotes, or to \<open>None\<close> when it raises. A decoder given by a
  finite table of texts rejects every other text.
\<close>

type_synonym decoder = "string \<Rightarrow> json option"

definition table_decoder :: "(string \<times> json) list \<Rightarrow> decoder" where
  "table_decoder tbl = map_of tbl"

section \<open>Discovery\<close>

text \<open>
  \<open>find_empty_files\<close> filters what \<open>rglob\<close> or \<open>iterdir\<close> yields; the order of
  that listing is the platform's, so the listing is an argument.
\<close>

definition startswith_dot :: "string \<Rightarrow> bool" where
  "startswith_dot s = (case s of [] \<Rightarrow> False | c # cs \<Rightarrow> c = CHR ''.'')"

definition find_empty_files :: "filesys \<Rightarrow> path list \<Rightarrow> bool \<Rightarrow> path list" where
  "find_empty_files fs listing ignore_hidden =
     filter (\<lambda>p. is_file fs p
                \<and> \<not> (ignore_hidden \<and> list_ex startswith_dot p)
                \<and> st_size fs p = 0) listing"

definition make_quarantine_dir ::
  "filesys \<Rightarrow> path \<Rightarrow> string \<Rightarrow> (filesys \<times> error option) \<times> path" where
  "make_quarantine_dir fs base t =
     (let q = joinpath base (''quarantine-'' @ t) in (path_mkdir fs q, q))"

section \<open>Mover\<close>

text \<open>The metadata dictionary of \<open>safe_move\<close>, in the order its keys are written.\<close>

definition metadata :: "path \<Rightarrow> path \<Rightarrow> json \<Rightarrow> string \<Rightarrow> string \<Rightarrow> json" where
  "metadata src final_dest sz now act =
     JObj [(''original'', JStr (str_path src)),
           (''moved_to'', JStr (str_path final_dest)),
           (''size'', sz),
           (''time'', JStr now),
           (''action'', JStr act)]"

definition size_if_exists :: "filesys \<Rightarrow> path \<Rightarrow> json" where
  "size_if_exists fs p = (if exists fs p then JNum (int (st_size fs p)) else JNull)"

text \<open>\<open>src.relative_to(target_root)\<close>, with the name alone when that raises.\<close>

definition dest_path_of :: "path \<Rightarrow> path \<Rightarrow> bool \<Rightarrow> path \<Rightarrow> path" where
  "dest_path_of src dst_dir preserve_structure target_root =
     (if preserve_structure then
        (let rel = (if prefix target_root src then drop (length target_root) src
                    else name_parts src)
         in dst_dir @ rel)
      else dst_dir @ name_parts src)"

text \<open>
  \<open>safe_move\<close>: \<open>now\<close> is what the clock reads. The result is \<open>None\<close> when the
  naming loop does not return; otherwise the state left behind and either the raised
  error or the final destination with the metadata.
\<close>

definition safe_move ::
  "string \<Rightarrow> filesys \<Rightarrow> path \<Rightarrow> path \<Rightarrow> bool \<Rightarrow> path \<Rightarrow> bool
     \<Rightarrow> (filesys \<times> (error + path \<times> json)) option" where
  "safe_move now fs src dst_dir preserve_structure target_root dry_run =
     (let dest_path = dest_path_of src dst_dir preserve_structure target_root in
      case path_mkdir fs (parent dest_path) of
        (fs1, Some e) \<Rightarrow> Some (fs1, Inl e)
      | (fs1, None) \<Rightarrow>
          (case unique_path_if_exists fs1 dest_path of
             None \<Rightarrow> None
           | Some final_dest \<Rightarrow>
               if dry_run then
                 Some (fs1, Inr (final_dest,
                   metadata src final_dest (size_if_exists fs1 src) now ''dry-run''))
               else
                 (case shutil_move fs1 src final_dest of
                    (fs2, Some e) \<Rightarrow> Some (fs2, Inl e)
                  | (fs2, None) \<Rightarrow>
                      Some (fs2, Inr (final_dest,
                        metadata src final_dest (size_if_exists fs2 final_dest) now
                          ''moved'')))))"

section \<open>Journal\<close>

definition meta_file :: "path \<Rightarrow> path" where
  "meta_file quarantine_dir = joinpath quarantine_dir ''metadata.json''"

text \<open>
  The value \<open>existing\<close> holds before \<open>extend\<close>: the empty list, replaced by what
  the decoder returns when the file exists and reading and decoding raise nothing.
\<close>

definition load_existing :: "decoder \<Rightarrow> filesys \<Rightarrow> path \<Rightarrow> json" where
  "load_existing loads fs mf =
     (if exists fs mf then
        (case read_text fs mf of
           Inl e \<Rightarrow> JArr []
         | Inr txt \<Rightarrow> (case loads txt of None \<Rightarrow> JArr [] | Some j \<Rightarrow> j))
      else JArr [])"

text \<open>
  \<open>write_metadata\<close>. \<open>existing.extend(records)\<close> is outside the \<open>try\<close>: on a value
  that is not a list it raises \<open>AttributeError\<close> and nothing is written.
\<close>

definition write_metadata ::
  "decoder \<Rightarrow> filesys \<Rightarrow> path \<Rightarrow> json list \<Rightarrow> filesys \<times> error option" where
  "write_metadata loads fs quarantine_dir records =
     (case load_existing loads fs (meta_file quarantine_dir) of
        JArr existing \<Rightarrow>
          (case write_text fs (meta_file quarantine_dir)
                  (py_dumps 2 (JArr (existing @ records))) of
             Inl e \<Rightarrow> (fs, Some e)
           | Inr fs' \<Rightarrow> (fs', None))
      | other \<Rightarrow> (fs, Some AttributeError))"

section \<open>RestoreEngine\<close>

text \<open>
  The text of an error entry is a fixed phrase followed by the exception; the phrase is
  kept as a constructor: \<open>failed to create parent\<close>, \<open>overwrite error ...; fallback
  failed\<close>, \<open>collision handling error\<close>, \<open>move error\<close>.
\<close>

datatype failure =
    ParentCreate error
  | OverwriteFallback error error
  | Collision error
  | MoveError error

datatype step =
    Restored path path
  | Skipped path path string
  | Failed path path failure

record report =
  restored :: "(path \<times> path) list"
  skipped :: "(path \<times> path \<times> string) list"
  errors :: "(path \<times> path \<times> failure) list"

definition empty_report :: report where
  "empty_report = \<lparr>restored = [], skipped = [], errors = []\<rparr>"

fun add_step :: "report \<Rightarrow> step \<Rightarrow> report" where
  "add_step r (Restored p m) = r\<lparr>restored := restored r @ [(p, m)]\<rparr>"
| "add_step r (Skipped p m why) = r\<lparr>skipped := skipped r @ [(p, m, why)]\<rparr>"
| "add_step r (Failed p m why) = r\<lparr>errors := errors r @ [(p, m, why)]\<rparr>"

text \<open>The handler of the overwrite branch: \<open>try unique rename instead\<close>.\<close>

definition fallback ::
  "filesys \<Rightarrow> bool \<Rightarrow> path \<Rightarrow> path \<Rightarrow> error \<Rightarrow> (filesys \<times> step) option" where
  "fallback fs dry_run original moved_to e =
     (case unique_path_if_exists fs original of
        None \<Rightarrow> None
      | Some cand \<Rightarrow>
          if \<not> dry_run then
            (case shutil_move fs moved_to cand of
               (fs', None) \<Rightarrow> Some (fs', Restored cand moved_to)
             | (fs', Some ee) \<Rightarrow> Some (fs', Failed original moved_to (OverwriteFallback e ee)))
          else Some (fs, Restored cand moved_to))"

text \<open>The body of the loop of \<open>restore_from_quarantine\<close> for one pair of paths.\<close>

definition restore_paths ::
  "filesys \<Rightarrow> bool \<Rightarrow> bool \<Rightarrow> path \<Rightarrow> path \<Rightarrow> (filesys \<times> step) option" where
  "restore_paths fs dry_run yes original moved_to =
     (if \<not> exists fs moved_to then
        Some (fs, Skipped original moved_to ''moved file missing'')
      else
        (case (if \<not> exists fs (parent original) \<and> \<not> dry_run
               then path_mkdir fs (parent original) else (fs, None)) of
           (fs1, Some e) \<Rightarrow> Some (fs1, Failed original moved_to (ParentCreate e))
         | (fs1, None) \<Rightarrow>
             if exists fs1 original then
               (if yes then
                  (if \<not> dry_run then
                     (case unique_path_if_exists fs1 original of
                        None \<Rightarrow> None
                      | Some tmp \<Rightarrow>
                          (case os_unlink fs1 original of
                             Inl e \<Rightarrow> fallback fs1 dry_run original moved_to e
                           | Inr fs2 \<Rightarrow>
                               (case shutil_move fs2 moved_to original of
                                  (fs3, None) \<Rightarrow> Some (fs3, Restored original moved_to)
                                | (fs3, Some e) \<Rightarrow>
                                    fallback fs3 dry_run original moved_to e)))
                   else Some (fs1, Restored original moved_to))
                else
                  (case unique_path_if_exists fs1 original of
                     None \<Rightarrow> None
                   | Some cand \<Rightarrow>
                       if \<not> dry_run then
                         (case shutil_move fs1 moved_to cand of
                            (fs2, None) \<Rightarrow> Some (fs2, Restored cand moved_to)
                          | (fs2, Some e) \<Rightarrow>
                              Some (fs2, Failed original moved_to (Collision e)))
                       else Some (fs1, Restored cand moved_to)))
             else
               (if \<not> dry_run then
                  (case shutil_move fs1 moved_to original of
                     (fs2, None) \<Rightarrow> Some (fs2, Restored original moved_to)
                   | (fs2, Some e) \<Rightarrow> Some (fs2, Failed original moved_to (MoveError e)))
                else Some (fs1, Restored original moved_to))))"

text \<open>\<open>Path(entry.get(key))\<close>: anything but a string raises \<open>TypeError\<close>.\<close>

definition path_of_json :: "json option \<Rightarrow> error + path" where
  "path_of_json v = (case v of Some (JStr s) \<Rightarrow> Inr (Path s) | _ \<Rightarrow> Inl TypeError)"

text \<open>
  One journal entry. An entry that is no dictionary has no \<open>get\<close>; the exception is
  not caught and ends the restore.
\<close>

definition restore_entry ::
  "filesys \<Rightarrow> bool \<Rightarrow> bool \<Rightarrow> json \<Rightarrow> (filesys \<times> (error + step)) option" where
  "restore_entry fs dry_run yes entry =
     (case entry of
        JObj kv \<Rightarrow>
          (case path_of_json (dict_get kv ''original'') of
             Inl e \<Rightarrow> Some (fs, Inl e)
           | Inr original \<Rightarrow>
               (case path_of_json (dict_get kv ''moved_to'') of
                  Inl e \<Rightarrow> Some (fs, Inl e)
                | Inr moved_to \<Rightarrow>
                    (case restore_paths fs dry_run yes original moved_to of
                       None \<Rightarrow> None
                     | Some (fs', st) \<Rightarrow> Some (fs', Inr st))))
      | other \<Rightarrow> Some (fs, Inl AttributeError))"

text \<open>The loop \<open>for entry in records\<close>, with the three lists it fills.\<close>

fun restore_records ::
  "filesys \<Rightarrow> bool \<Rightarrow> bool \<Rightarrow> json list \<Rightarrow> report \<Rightarrow> (filesys \<times> (error + report)) option"
  where
  "restore_records fs dry_run yes [] rep = Some (fs, Inr rep)"
| "restore_records fs dry_run yes (entry # rest) rep =
     (case restore_entry fs dry_run yes entry of
        None \<Rightarrow> None
      | Some (fs', Inl e) \<Rightarrow> Some (fs', Inl e)
      | Some (fs', Inr st) \<Rightarrow> restore_records fs' dry_run yes rest (add_step rep st))"

text \<open>What iterating over a decoded value yields.\<close>

definition py_iter :: "json \<Rightarrow> error + json list" where
  "py_iter j =
     (case j of
        JArr xs \<Rightarrow> Inr xs
      | JObj kv \<Rightarrow> Inr (map JStr (rev (remdups (rev (map fst kv)))))
      | JStr s \<Rightarrow> Inr (map (\<lambda>c. JStr [c]) s)
      | other \<Rightarrow> Inl TypeError)"

datatype restore_result = NoMetadata | Unreadable | Summary report

definition restore_from_quarantine ::
  "decoder \<Rightarrow> filesys \<Rightarrow> path \<Rightarrow> bool \<Rightarrow> bool
     \<Rightarrow> (filesys \<times> (error + restore_result)) option" where
  "restore_from_quarantine loads fs quarantine_dir dry_run yes =
     (if \<not> exists fs (meta_file quarantine_dir) then Some (fs, Inr NoMetadata)
      else
        (case read_text fs (meta_file quarantine_dir) of
           Inl e \<Rightarrow> Some (fs, Inr Unreadable)
         | Inr txt \<Rightarrow>
             (case loads txt of
                None \<Rightarrow> Some (fs, Inr Unreadable)
              | Some records \<Rightarrow>
                  (case py_iter records of
                     Inl e \<Rightarrow> Some (fs, Inl e)
                   | Inr entries \<Rightarrow>
                       (case restore_records fs dry_run yes entries empty_report of
                          None \<Rightarrow> None
                        | Some (fs', Inl e) \<Rightarrow> Some (fs', Inl e)
                        | Some (fs', Inr rep) \<Rightarrow> Some (fs', Inr (Summary rep)))))))"

section \<open>The scan-and-quarantine flow of main\<close>

text \<open>
  The command line and what the run reads from outside: the listing the directory walk
  yields, the clock reading that names the quarantine directory, the clock reading at
  each move, and whether the typed answer is a yes.
\<close>

record scan_args =
  arg_target :: path
  arg_dry_run :: bool
  arg_yes :: bool
  arg_quarantine :: "path option"
  arg_preserve_structure :: bool
  arg_ignore_hidden :: bool

record scan_env =
  env_listing :: "path list"
  env_stamp :: string
  env_clock :: "nat \<Rightarrow> string"
  env_confirms :: bool

datatype status = Returned | Exit nat | Uncaught error

text \<open>The text of an exception in a message stands for the platform's wording.\<close>

fun err_text :: "error \<Rightarrow> string" where
  "err_text FileNotFoundError = ''FileNotFoundError''"
| "err_text FileExistsError = ''FileExistsError''"
| "err_text NotADirectoryError = ''NotADirectoryError''"
| "err_text IsADirectoryError = ''IsADirectoryError''"
| "err_text PermissionError = ''PermissionError''"
| "err_text InvalidArgument = ''OSError''"
| "err_text SameFileError = ''SameFileError''"
| "err_text ShutilError = ''Error''"
| "err_text AttributeError = ''AttributeError''"
| "err_text TypeError = ''TypeError''"

text \<open>The loop over \<open>empty_files\<close>: each failure is printed and the loop goes on.\<close>

fun move_all ::
  "(nat \<Rightarrow> string) \<Rightarrow> nat \<Rightarrow> filesys \<Rightarrow> path \<Rightarrow> bool \<Rightarrow> path \<Rightarrow> path list
     \<Rightarrow> (filesys \<times> json list \<times> string list) option" where
  "move_all clock i fs quarantine_dir preserve target [] = Some (fs, [], [])"
| "move_all clock i fs quarantine_dir preserve target (src # rest) =
     (case safe_move (clock i) fs src quarantine_dir preserve target False of
        None \<Rightarrow> None
      | Some (fs1, Inl e) \<Rightarrow>
          (case move_all clock (i + 1) fs1 quarantine_dir preserve target rest of
             None \<Rightarrow> None
           | Some (fs2, metas, out) \<Rightarrow>
               Some (fs2, metas,
                 (''[ERROR] Could not move '' @ str_path src @ '': '' @ err_text e) # out))
      | Some (fs1, Inr (dest, meta)) \<Rightarrow>
          (case move_all clock (i + 1) fs1 quarantine_dir preserve target rest of
             None \<Rightarrow> None
           | Some (fs2, metas, out) \<Rightarrow>
               Some (fs2, meta # metas,
                 (''[MOVED] '' @ str_path src @ '' -> '' @ str_path dest) # out)))"

definition found_lines :: "path list \<Rightarrow> string list" where
  "found_lines empty_files =
     ''Empty files found:'' # map (\<lambda>f. '' - '' @ str_path f) empty_files"

definition summary_lines :: "json list \<Rightarrow> path \<Rightarrow> string list" where
  "summary_lines moved_meta quarantine_dir =
     [CHR 0x0A # ''Summary:'', ''Files moved: '' @ str_nat (length moved_meta)]
     @ (if moved_meta \<noteq> [] then [''Quarantine location: '' @ str_path quarantine_dir]
        else [''No files were moved.''])"

text \<open>
  \<open>main\<close> without \<open>--restore\<close>: the state left behind, the lines printed, and how
  the run ended.
\<close>

definition main_scan ::
  "decoder \<Rightarrow> scan_env \<Rightarrow> scan_args \<Rightarrow> filesys \<Rightarrow> (filesys \<times> string list \<times> status) option"
  where
  "main_scan loads env args fs =
     (let target = arg_target args in
      if \<not> exists fs target \<or> \<not> is_dir fs target then
        Some (fs, [''Target directory does not exist or is not a directory: ''
                    @ str_path target], Exit 1)
      else
        (let empty_files = find_empty_files fs (env_listing env) (arg_ignore_hidden args) in
         if empty_files = [] then Some (fs, [''No empty files found.''], Returned)
         else if arg_dry_run args then
           Some (fs, found_lines empty_files
                     @ [CHR 0x0A # ''Dry-run: no files were moved.''], Returned)
         else
           (case make_quarantine_dir fs
                   (case arg_quarantine args of None \<Rightarrow> [] | Some b \<Rightarrow> b) (env_stamp env) of
              ((fs1, Some e), q) \<Rightarrow> Some (fs1, found_lines empty_files, Uncaught e)
            | ((fs1, None), quarantine_dir) \<Rightarrow>
                (let out1 = found_lines empty_files
                       @ [CHR 0x0A # ''Quarantine folder (will be used): ''
                          @ str_path quarantine_dir] in
                 if \<not> arg_yes args \<and> \<not> env_confirms env then
                   Some (fs1, out1
                     @ [CHR 0x0A # ''Move these files to quarantine? Type 'yes' to confirm: '',
                        ''Aborted by user.''], Returned)
                 else
                   (let out2 = (if arg_yes args then out1 else out1
                       @ [CHR 0x0A # ''Move these files to quarantine? Type 'yes' to confirm: ''])
                    in
                    case move_all (env_clock env) 0 fs1 quarantine_dir
                           (arg_preserve_structure args) target empty_files of
                      None \<Rightarrow> None
                    | Some (fs2, moved_meta, moved_lines) \<Rightarrow>
                        (if moved_meta \<noteq> [] then
                           (case write_metadata loads fs2 quarantine_dir moved_meta of
                              (fs3, None) \<Rightarrow>
                                Some (fs3, out2 @ moved_lines
                                  @ summary_lines moved_meta quarantine_dir, Returned)
                            | (fs3, Some e) \<Rightarrow>
                                Some (fs3, out2 @ moved_lines
                                  @ [''Warning: failed to write metadata.json: '' @ err_text e]
                                  @ summary_lines moved_meta quarantine_dir, Returned))
                         else
                           Some (fs2, out2 @ moved_lines
                             @ summary_lines moved_meta quarantine_dir, Returned)))))))"

section \<open>Notions used in the statements\<close>

text \<open>
  The body of the \<open>try\<close> of the overwrite branch: \<open>original.unlink()\<close>, then
  \<open>shutil.move(moved_to, original)\<close>; the state it leaves and the exception, if any.
\<close>

definition delete_then_move :: "filesys \<Rightarrow> path \<Rightarrow> path \<Rightarrow> filesys \<times> error option" where
  "delete_then_move fs original moved_to =
     (case os_unlink fs original of
        Inl e \<Rightarrow> (fs, Some e)
      | Inr fs2 \<Rightarrow> shutil_move fs2 moved_to original)"

text \<open>
  The pair of paths a journal entry names, when it is a dictionary whose \<open>original\<close>
  and \<open>moved_to\<close> are strings; the tuple the loop appends to \<open>skipped\<close> for
  such an entry; and an entry with its \<open>action\<close> replaced.
\<close>

definition entry_paths :: "json \<Rightarrow> (path \<times> path) option" where
  "entry_paths entry =
     (case entry of
        JObj kv \<Rightarrow>
          (case dict_get kv ''original'' of
             Some (JStr so) \<Rightarrow>
               (case dict_get kv ''moved_to'' of
                  Some (JStr sm) \<Rightarrow> Some (Path so, Path sm)
                | _ \<Rightarrow> None)
           | _ \<Rightarrow> None)
      | _ \<Rightarrow> None)"

definition skipped_entry :: "json \<Rightarrow> path \<times> path \<times> string" where
  "skipped_entry entry =
     (case entry_paths entry of
        Some (original, moved_to) \<Rightarrow> (original, moved_to, ''moved file missing'')
      | None \<Rightarrow> ([], [], []))"

definition retag :: "string \<Rightarrow> json \<Rightarrow> json" where
  "retag a entry =
     (case entry of
        JObj kv \<Rightarrow> JObj (map (\<lambda>(k, v). if k = ''action'' then (k, JStr a) else (k, v)) kv)
      | other \<Rightarrow> other)"

text \<open>
  \<open>Path.mkdir(parents=True, exist_ok=True)\<close> can make a path when every ancestor
  of it that exists, the path itself included, is a directory, and the one below which
  the first missing component lies is writable. What it makes is every missing ancestor
  and the path itself, as writable directories.
\<close>

definition can_make_dirs :: "filesys \<Rightarrow> path \<Rightarrow> bool" where
  "can_make_dirs fs p \<longleftrightarrow>
     (\<forall>q \<in> set (prefixes p).
        exists fs q \<longrightarrow>
          is_dir fs q \<and>
          (q \<noteq> p \<and> \<not> exists fs (take (Suc (length q)) p) \<longrightarrow> writable fs q))"

definition made_dirs :: "filesys \<Rightarrow> path \<Rightarrow> filesys" where
  "made_dirs fs p =
     fs\<lparr>nodes := (\<lambda>q. if prefix q p \<and> \<not> exists fs q then Some (Dir True)
                       else nodes fs q)\<rparr>"

text \<open>A name in double quotes.\<close>

definition quoted :: "string \<Rightarrow> string" where
  "quoted s = CHR 0x22 # s @ [CHR 0x22]"

section \<open>Example filesystems and runs\<close>

definition mkfs :: "(path \<times> node) list \<Rightarrow> filesys" where
  "mkfs l = \<lparr>nodes = map_of l\<rparr>"

text \<open>A directory with a report, its first sibling, and a file without extension.\<close>

definition fs_names :: filesys where
  "fs_names = mkfs [([], Dir True), ([''t''], Dir True),
     ([''t'', ''report.txt''], File []), ([''t'', ''report_1.txt''], File []),
     ([''t'', ''notes''], File [])]"

text \<open>A file whose name ends in a dot.\<close>

definition fs_trailing_dot :: filesys where
  "fs_trailing_dot = mkfs [([], Dir True), ([''t''], Dir True), ([''t'', ''foo.''], File [])]"

text \<open>
  A file already stands at the original path of a quarantined file of the same name;
  a directory stands there; the file stands in a read-only directory.
\<close>

definition fs_collide :: filesys where
  "fs_collide = mkfs [([], Dir True), ([''t''], Dir True), ([''t'', ''a.txt''], File ''x''),
     ([''q''], Dir True), ([''q'', ''a.txt''], File [])]"

definition fs_dir_at_original :: filesys where
  "fs_dir_at_original = mkfs [([], Dir True), ([''t''], Dir True), ([''t'', ''a.txt''], Dir True),
     ([''q''], Dir True), ([''q'', ''a.txt''], File [])]"

definition fs_locked :: filesys where
  "fs_locked = mkfs [([], Dir True), ([''t''], Dir False), ([''t'', ''a.txt''], File ''x''),
     ([''q''], Dir True), ([''q'', ''a.txt''], File [])]"

text \<open>
  A quarantine directory with one file, a journal entry tagged \<open>dry-run\<close> for it,
  and two entries whose quarantined files are gone.
\<close>

definition fs_quarantined :: filesys where
  "fs_quarantined = mkfs [([], Dir True), ([''t''], Dir True),
     ([''q''], Dir True), ([''q'', ''a.txt''], File [])]"

definition dry_run_entry :: json where
  "dry_run_entry = metadata [''t'', ''a.txt''] [''q'', ''a.txt''] (JNum 0)
     ''2024-01-01 00:00:00'' ''dry-run''"

definition gone_entries :: "json list" where
  "gone_entries =
     [metadata [''t'', ''b.txt''] [''q'', ''b.txt''] (JNum 0) ''2024-01-01 00:00:00'' ''moved'',
      metadata [''t'', ''c.txt''] [''q'', ''c.txt''] (JNum 0) ''2024-01-01 00:00:01'' ''moved'']"

text \<open>
  A directory with one empty file beside an empty quarantine directory, a clock that
  stands still, and the record \<open>safe_move\<close> makes for that file.
\<close>

definition fs_scan :: filesys where
  "fs_scan = mkfs [([], Dir True), ([''t''], Dir True), ([''t'', ''a.txt''], File []),
     ([''q''], Dir True)]"

definition clock0 :: "nat \<Rightarrow> string" where
  "clock0 i = ''2024-01-01 00:00:00''"

definition moved_record :: json where
  "moved_record = metadata [''t'', ''a.txt''] [''q'', ''a.txt''] (JNum 0)
     ''2024-01-01 00:00:00'' ''moved''"

text \<open>A tree three levels deep, with no quarantine directory yet.\<close>

definition fs_deep :: filesys where
  "fs_deep = mkfs [([], Dir True), ([''t''], Dir True), ([''t'', ''d''], Dir True),
     ([''t'', ''d'', ''e''], Dir True), ([''t'', ''d'', ''e'', ''a.txt''], File [])]"

text \<open>
  A run of the scan flow with \<open>--dry-run\<close> over a directory holding one empty file;
  a decoder that rejects every text.
\<close>

definition fs_before :: filesys where
  "fs_before = mkfs [([], Dir True), ([''t''], Dir True), ([''t'', ''a.txt''], File [])]"

definition env0 :: scan_env where
  "env0 = \<lparr>env_listing = [[''t'', ''a.txt'']], env_stamp = ''20240101-000000'',
            env_clock = clock0, env_confirms = False\<rparr>"

definition args_dry :: scan_args where
  "args_dry = \<lparr>arg_target = [''t''], arg_dry_run = True, arg_yes = False,
                arg_quarantine = None, arg_preserve_structure = False,
                arg_ignore_hidden = True\<rparr>"

definition no_decoder :: decoder where
  "no_decoder = table_decoder []"

text \<open>
  A quarantine directory whose journal holds a JSON object instead of an array, with a
  decoder that reads it.
\<close>

definition fs_bad_journal :: filesys where
  "fs_bad_journal = mkfs [([], Dir True), ([''q''], Dir True),
     ([''q'', ''metadata.json''], File ''{}'')]"

definition object_decoder :: decoder where
  "object_decoder = table_decoder [(''{}'', JObj [])]"

text \<open>
  A scanned directory holding an empty file named \<open>metadata.json\<close>, the run that
  quarantines it without asking, the journal that run writes, and a decoder that reads
  this journal and rejects every other text, the empty one among them.
\<close>

definition fs_journal_name :: filesys where
  "fs_journal_name = mkfs [([], Dir True), ([''t''], Dir True),
     ([''t'', ''metadata.json''], File [])]"

definition env_journal_name :: scan_env where
  "env_journal_name = \<lparr>env_listing = [[''t'', ''metadata.json'']],
     env_stamp = ''20240101-000000'', env_clock = clock0, env_confirms = False\<rparr>"

definition args_move :: scan_args where
  "args_move = \<lparr>arg_target = [''t''], arg_dry_run = False, arg_yes = True,
                 arg_quarantine = None, arg_preserve_structure = False,
                 arg_ignore_hidden = True\<rparr>"

definition journal_written :: json where
  "journal_written = JArr [metadata [''t'', ''metadata.json'']
     [''quarantine-20240101-000000'', ''metadata.json''] (JNum 0)
     ''2024-01-01 00:00:00'' ''moved'']"

definition journal_decoder :: decoder where
  "journal_decoder = table_decoder [(py_dumps 2 journal_written, journal_written)]"

section \<open>Evaluating the definitions\<close>

text \<open>The equations that compute the definitions on a concrete input.\<close>

lemmas eval_names =
  sibling_def candidate_def joinpath_def parent_def name_def py_stem_def py_suffix_def
  has_suffix_def rfind_def str_nat.simps digit_def

lemmas eval_fs = exists_def is_dir_def is_file_def writable_def st_size_def mkfs_def

lemmas eval_ops = shutil_move_def move_to_def os_rename_def copy2_def read_text_def
  write_text_def os_unlink_def put_def remove_def name_parts_def

lemmas eval_json = metadata_def dict_get_def path_of_json_def Path_def str_path_def
  entry_paths_def

lemmas eval_mkdir = path_mkdir.simps mkdir_exist_ok_def os_mkdir_def

lemmas eval_move = safe_move_def dest_path_of_def unique_path_if_exists_def unique_loop.simps
  size_if_exists_def Let_def

lemmas eval_dumps = py_dumps_def newline_indent_def dumps_str_def escape_char_def
  str_int_def quoted_def

section \<open>Facts about names\<close>

lemma digit_inj: "a < 10 \<Longrightarrow> b < 10 \<Longrightarrow> digit a = digit b \<Longrightarrow> a = b"
proof -
  assume a: "a < 10" and b: "b < 10" and e: "digit a = digit b"
  have d: "distinct ''0123456789''" by simp
  from a b have "(''0123456789'' ! a = ''0123456789'' ! b) = (a = b)"
    by (intro nth_eq_iff_index_eq[OF d]) simp_all
  with e show ?thesis by (simp add: digit_def)
qed

lemma str_nat_small: "n < 10 \<Longrightarrow> str_nat n = [digit n]"
  by (subst str_nat.simps) simp

lemma str_nat_big: "\<not> n < 10 \<Longrightarrow> str_nat n = str_nat (n div 10) @ [digit (n mod 10)]"
  by (subst str_nat.simps) simp

lemma str_nat_ne: "str_nat n \<noteq> []"
  by (subst str_nat.simps) simp

lemma str_nat_inj: "str_nat a = str_nat b \<Longrightarrow> a = b"
proof (induction a arbitrary: b rule: str_nat.induct)
  case (1 n)
  show ?case
  proof (cases "n < 10")
    case True
    note sn = str_nat_small[OF True]
    show ?thesis
    proof (cases "b < 10")
      case B: True
      from 1(2) sn str_nat_small[OF B] have "digit n = digit b" by simp
      with True B show ?thesis by (rule digit_inj)
    next
      case False
      from 1(2) sn str_nat_big[OF False] have "str_nat (b div 10) = []" by simp
      then show ?thesis using str_nat_ne by blast
    qed
  next
    case False
    note sn = str_nat_big[OF False]
    show ?thesis
    proof (cases "b < 10")
      case True
      from 1(2) sn str_nat_small[OF True] have "str_nat (n div 10) = []" by simp
      then show ?thesis using str_nat_ne by blast
    next
      case F2: False
      from 1(2) sn str_nat_big[OF F2] have e1: "str_nat (n div 10) = str_nat (b div 10)"
        and e2: "digit (n mod 10) = digit (b mod 10)" by auto
      from 1(1)[OF False e1] have d: "n div 10 = b div 10" .
      have "n mod 10 < 10" "b mod 10 < 10" by simp_all
      then have m: "n mod 10 = b mod 10" using e2 by (rule digit_inj)
      from d m show ?thesis by (metis div_mult_mod_eq)
    qed
  qed
qed

lemma candidate_inj: "candidate par stm suf a = candidate par stm suf b \<Longrightarrow> a = b"
  by (simp add: candidate_def joinpath_def str_nat_inj)

lemma stem_suffix: "py_stem n @ py_suffix n = n"
  by (simp add: py_stem_def py_suffix_def)

lemma parent_name: "p \<noteq> [] \<Longrightarrow> parent p @ [name p] = p"
  by (simp add: parent_def name_def)

lemma parent_sibling: "parent (sibling p n) = parent p"
  by (simp add: sibling_def candidate_def joinpath_def parent_def)

lemma name_sibling:
  "name (sibling p n) = py_stem (name p) @ ''_'' @ str_nat n @ py_suffix (name p)"
  by (simp add: sibling_def candidate_def joinpath_def name_def)

lemma sibling_neq: "sibling p n \<noteq> p"
proof
  assume e: "sibling p n = p"
  show False
  proof (cases "p = []")
    case True
    with e show False by (simp add: sibling_def candidate_def joinpath_def)
  next
    case False
    from e have "parent p @ [py_stem (name p) @ ''_'' @ str_nat n @ py_suffix (name p)]
                 = parent p @ [name p]"
      by (simp add: sibling_def candidate_def joinpath_def parent_name[OF False])
    then have "py_stem (name p) @ ''_'' @ str_nat n @ py_suffix (name p)
               = py_stem (name p) @ py_suffix (name p)"
      by (simp add: stem_suffix)
    then have "length (py_stem (name p) @ ''_'' @ str_nat n @ py_suffix (name p))
               = length (py_stem (name p) @ py_suffix (name p))" by (rule arg_cong)
    then show False by simp
  qed
qed

text \<open>A candidate of a name without extension that does not end in a dot.\<close>

lemma digit_no_dot: "d < 10 \<Longrightarrow> digit d \<noteq> CHR ''.''"
proof -
  assume "d < 10"
  then have "digit d \<in> set ''0123456789''" by (simp add: digit_def del: set_simps)
  then show ?thesis by auto
qed

lemma str_nat_no_dot: "CHR ''.'' \<notin> set (str_nat n)"
proof (induction n rule: str_nat.induct)
  case (1 n)
  show ?case
  proof (cases "n < 10")
    case True
    then show ?thesis using digit_no_dot[of n] by (simp add: str_nat_small)
  next
    case False
    have "n mod 10 < 10" by simp
    from digit_no_dot[OF this] 1[OF False] False show ?thesis
      by (simp add: str_nat_big)
  qed
qed

lemma no_suffix_append:
  assumes ns: "\<not> has_suffix n" and nd: "n = [] \<or> last n \<noteq> CHR ''.''"
    and t: "CHR ''.'' \<notin> set t"
  shows "\<not> has_suffix (n @ t)"
proof (cases "CHR ''.'' \<in> set n")
  case False
  with t show ?thesis by (simp add: has_suffix_def rfind_def)
next
  case True
  then have nn: "n \<noteq> []" by auto
  with nd have l: "last n \<noteq> CHR ''.''" by simp
  let ?tw = "takeWhile (\<lambda>x. x \<noteq> CHR ''.'') (rev n)"
  from nn l have "hd (rev n) \<noteq> CHR ''.''" by (simp add: hd_rev)
  with nn have tw1: "length ?tw \<ge> 1" by (cases "rev n") auto
  from True have "dropWhile (\<lambda>x. x \<noteq> CHR ''.'') (rev n) \<noteq> []"
    by simp
  moreover have "length ?tw + length (dropWhile (\<lambda>x. x \<noteq> CHR ''.'') (rev n))
                 = length (rev n)"
    by (metis length_append takeWhile_dropWhile_id)
  ultimately have tw2: "length ?tw < length n" by (cases "dropWhile (\<lambda>x. x \<noteq> CHR ''.'') (rev n)") auto
  from True have r: "rfind (CHR ''.'') n = Some (length n - 1 - length ?tw)"
    by (simp add: rfind_def)
  from ns r tw1 tw2 have z: "length n - 1 - length ?tw = 0"
    by (auto simp: has_suffix_def)
  from t have "\<And>x. x \<in> set (rev t) \<Longrightarrow> x \<noteq> CHR ''.''" by auto
  then have "takeWhile (\<lambda>x. x \<noteq> CHR ''.'') (rev t @ rev n) = rev t @ ?tw"
    by (rule takeWhile_append2)
  then have "takeWhile (\<lambda>x. x \<noteq> CHR ''.'') (rev (n @ t)) = rev t @ ?tw"
    by simp
  with True have "rfind (CHR ''.'') (n @ t) = Some (length n - 1 - length ?tw)"
    by (simp add: rfind_def)
  with z show ?thesis by (simp add: has_suffix_def)
qed

lemma sibling_no_extension:
  assumes "py_suffix (name p) = []" and "name p = [] \<or> last (name p) \<noteq> CHR ''.''"
  shows "py_suffix (name (sibling p n)) = []"
proof -
  from assms(1) stem_suffix[of "name p"] have st: "py_stem (name p) = name p" by simp
  have ns: "\<not> has_suffix (name p)"
  proof
    assume h: "has_suffix (name p)"
    then obtain i where i: "rfind (CHR ''.'') (name p) = Some i" "i + 1 < length (name p)"
      by (auto simp: has_suffix_def split: option.splits)
    with h assms(1) show False by (simp add: py_suffix_def)
  qed
  have t: "CHR ''.'' \<notin> set (''_'' @ str_nat n)" using str_nat_no_dot[of n] by simp
  have nm: "name (sibling p n) = name p @ ''_'' @ str_nat n"
    by (simp add: name_sibling st assms(1))
  from no_suffix_append[OF ns assms(2) t]
  have "\<not> has_suffix (name p @ ''_'' @ str_nat n)" .
  with nm show ?thesis by (simp add: py_suffix_def)
qed

section \<open>The naming loop returns the first free candidate\<close>

lemma unique_loop_least:
  "\<not> exists fs (candidate par stm suf n) \<Longrightarrow>
   \<forall>k. c \<le> k \<and> k < n \<longrightarrow> exists fs (candidate par stm suf k) \<Longrightarrow> c \<le> n \<Longrightarrow>
   unique_loop fs par stm suf c = Some (candidate par stm suf n)"
proof (induction "n - c" arbitrary: c)
  case 0
  then have "c = n" by simp
  with 0 show ?case by (subst unique_loop.simps) simp
next
  case (Suc d)
  then have lt: "c < n" by simp
  with Suc.prems have ex: "exists fs (candidate par stm suf c)" by simp
  have "unique_loop fs par stm suf (c + 1) = Some (candidate par stm suf n)"
    using Suc.hyps(1)[of "c + 1"] Suc.hyps(2) Suc.prems lt by simp
  with ex show ?case by (subst unique_loop.simps) simp
qed

lemma free_candidate:
  assumes fin: "finite (dom (nodes fs))"
  shows "\<exists>n\<ge>c. \<not> exists fs (candidate par stm suf n)"
proof (rule ccontr)
  assume "\<not> ?thesis"
  then have all: "\<And>n. c \<le> n \<Longrightarrow> candidate par stm suf n \<in> dom (nodes fs)"
    by (auto simp: exists_def)
  have "inj_on (candidate par stm suf) {c..}"
    by (rule inj_onI) (erule candidate_inj)
  moreover have "candidate par stm suf ` {c..} \<subseteq> dom (nodes fs)" using all by auto
  ultimately have "finite {c..}" using fin by (metis finite_subset finite_imageD)
  then show False by (simp add: infinite_Ici)
qed

lemma unique_loop_returns:
  assumes fin: "finite (dom (nodes fs))"
  shows "\<exists>n\<ge>c. unique_loop fs par stm suf c = Some (candidate par stm suf n)
          \<and> \<not> exists fs (candidate par stm suf n)
          \<and> (\<forall>k. c \<le> k \<and> k < n \<longrightarrow> exists fs (candidate par stm suf k))"
proof -
  define P where "P n \<longleftrightarrow> c \<le> n \<and> \<not> exists fs (candidate par stm suf n)" for n
  from free_candidate[OF fin] have "\<exists>n. P n" by (auto simp: P_def)
  then have PL: "P (LEAST n. P n)" by (rule LeastI_ex)
  define m where "m = (LEAST n. P n)"
  have least: "\<And>k. P k \<Longrightarrow> m \<le> k" unfolding m_def by (rule Least_le)
  have Pm: "P m" using PL by (simp add: m_def)
  have below: "\<forall>k. c \<le> k \<and> k < m \<longrightarrow> exists fs (candidate par stm suf k)"
  proof (intro allI impI)
    fix k assume k: "c \<le> k \<and> k < m"
    show "exists fs (candidate par stm suf k)"
    proof (rule ccontr)
      assume "\<not> exists fs (candidate par stm suf k)"
      with k have "P k" by (simp add: P_def)
      then have "m \<le> k" by (rule least)
      with k show False by simp
    qed
  qed
  from Pm have cm: "c \<le> m" and free: "\<not> exists fs (candidate par stm suf m)"
    by (simp_all add: P_def)
  from unique_loop_least[OF free below cm] free below cm show ?thesis by blast
qed

text \<open>
  On a finite filesystem an occupied path gets its first free sibling; this fact is
  what the later sections use.
\<close>

lemma unique_occupied:
  assumes fin: "finite (dom (nodes fs))" and occ: "exists fs p"
  shows "\<exists>n\<ge>1. unique_path_if_exists fs p = Some (sibling p n)
          \<and> \<not> exists fs (sibling p n)
          \<and> (\<forall>k. 1 \<le> k \<and> k < n \<longrightarrow> exists fs (sibling p k))"
  using unique_loop_returns[OF fin, of 1 "parent p" "py_stem (name p)" "py_suffix (name p)"] occ
  by (simp add: unique_path_if_exists_def sibling_def)

lemma unique_vacant: "\<not> exists fs p \<Longrightarrow> unique_path_if_exists fs p = Some p"
  by (simp add: unique_path_if_exists_def)

section \<open>PathNamer: the contract\<close>

text \<open>
  C3, as the code has it. On a finite filesystem: a path at which nothing exists is
  returned as it is; an occupied path \<open>P\<close> gets the candidate
  \<open>{stem}_{n}{ext}\<close> in the directory of \<open>P\<close> for the smallest \<open>n\<close> in
  1, 2, 3, ... at which nothing exists, which differs from \<open>P\<close> and does not exist.
  The result is determined by which paths exist: two filesystems with the same existing
  paths give the same result. The filesystem is only read, no state is returned. When
  \<open>P\<close> has no extension the candidate is \<open>{name}_{n}\<close>, with nothing after the
  counter, and it has no extension either provided the name of \<open>P\<close> does not end
  in a dot.
\<close>

theorem unique_path_contract:
  assumes "finite (dom (nodes fs))"
  shows "(\<not> exists fs p \<longrightarrow> unique_path_if_exists fs p = Some p) \<and>
         (exists fs p \<longrightarrow>
            (\<exists>n\<ge>1. unique_path_if_exists fs p = Some (sibling p n)
               \<and> (\<forall>k. 1 \<le> k \<and> k < n \<longrightarrow> exists fs (sibling p k))
               \<and> \<not> exists fs (sibling p n)
               \<and> sibling p n \<noteq> p
               \<and> parent (sibling p n) = parent p
               \<and> name (sibling p n)
                   = py_stem (name p) @ ''_'' @ str_nat n @ py_suffix (name p)
               \<and> (py_suffix (name p) = [] \<longrightarrow>
                    name (sibling p n) = name p @ ''_'' @ str_nat n)
               \<and> (py_suffix (name p) = []
                    \<and> (name p = [] \<or> last (name p) \<noteq> CHR ''.'') \<longrightarrow>
                    py_suffix (name (sibling p n)) = [])))
     \<and> (\<forall>fs'. (\<forall>q. exists fs' q = exists fs q) \<longrightarrow>
            unique_path_if_exists fs' p = unique_path_if_exists fs p)"
proof (intro conjI impI allI)
  assume "\<not> exists fs p"
  then show "unique_path_if_exists fs p = Some p" by (rule unique_vacant)
next
  assume occ: "exists fs p"
  from unique_occupied[OF assms occ] obtain n where n: "n \<ge> 1"
    "unique_path_if_exists fs p = Some (sibling p n)" "\<not> exists fs (sibling p n)"
    "\<forall>k. 1 \<le> k \<and> k < n \<longrightarrow> exists fs (sibling p k)" by blast
  have noext: "py_suffix (name p) = [] \<longrightarrow> name (sibling p n) = name p @ ''_'' @ str_nat n"
  proof
    assume e: "py_suffix (name p) = []"
    with stem_suffix[of "name p"] have "py_stem (name p) = name p" by simp
    with e show "name (sibling p n) = name p @ ''_'' @ str_nat n"
      by (simp add: name_sibling)
  qed
  show "\<exists>n\<ge>1. unique_path_if_exists fs p = Some (sibling p n)
               \<and> (\<forall>k. 1 \<le> k \<and> k < n \<longrightarrow> exists fs (sibling p k))
               \<and> \<not> exists fs (sibling p n)
               \<and> sibling p n \<noteq> p
               \<and> parent (sibling p n) = parent p
               \<and> name (sibling p n)
                   = py_stem (name p) @ ''_'' @ str_nat n @ py_suffix (name p)
               \<and> (py_suffix (name p) = [] \<longrightarrow>
                    name (sibling p n) = name p @ ''_'' @ str_nat n)
               \<and> (py_suffix (name p) = []
                    \<and> (name p = [] \<or> last (name p) \<noteq> CHR ''.'') \<longrightarrow>
                    py_suffix (name (sibling p n)) = [])"
    using n noext sibling_neq[of p n] parent_sibling[of p n] name_sibling[of p n]
      sibling_no_extension[of p n]
    by (intro exI[of _ n]) simp
next
  fix fs' assume same: "\<forall>q. exists fs' q = exists fs q"
  then have "dom (nodes fs') = dom (nodes fs)" by (auto simp: exists_def dom_def)
  with assms have fin': "finite (dom (nodes fs'))" by simp
  show "unique_path_if_exists fs' p = unique_path_if_exists fs p"
  proof (cases "exists fs p")
    case False
    with same show ?thesis by (simp add: unique_vacant)
  next
    case True
    with same have occ': "exists fs' p" by simp
    from unique_occupied[OF assms True] obtain n where n:
      "unique_path_if_exists fs p = Some (sibling p n)" "\<not> exists fs (sibling p n)"
      "\<forall>k. 1 \<le> k \<and> k < n \<longrightarrow> exists fs (sibling p k)" "n \<ge> 1" by blast
    from unique_occupied[OF fin' occ'] obtain m where m:
      "unique_path_if_exists fs' p = Some (sibling p m)" "\<not> exists fs' (sibling p m)"
      "\<forall>k. 1 \<le> k \<and> k < m \<longrightarrow> exists fs' (sibling p k)" "m \<ge> 1" by blast
    have "\<not> m < n" using n(3) m(2) m(4) same by auto
    moreover have "\<not> n < m" using m(3) n(2) n(4) same by auto
    ultimately have "m = n" by simp
    with n(1) m(1) show ?thesis by simp
  qed
qed

theorem unique_path_contract_witness:
  "finite (dom (nodes fs_names))
   \<and> exists fs_names [''t'', ''report.txt'']
   \<and> unique_path_if_exists fs_names [''t'', ''report.txt''] = Some [''t'', ''report_2.txt'']
   \<and> exists fs_names [''t'', ''notes'']
   \<and> py_suffix ''notes'' = []
   \<and> unique_path_if_exists fs_names [''t'', ''notes''] = Some [''t'', ''notes_1'']
   \<and> \<not> exists fs_names [''t'', ''fresh.txt'']
   \<and> unique_path_if_exists fs_names [''t'', ''fresh.txt''] = Some [''t'', ''fresh.txt'']"
proof -
  have fin: "finite (dom (nodes fs_names))" by (simp add: fs_names_def mkfs_def)
  have e1: "exists fs_names [''t'', ''report.txt'']"
    and e2: "exists fs_names [''t'', ''notes'']"
    and e3: "\<not> exists fs_names [''t'', ''fresh.txt'']"
    by (simp_all add: fs_names_def eval_fs)
  have s: "py_suffix ''notes'' = []" by (simp add: eval_names)
  from unique_path_contract[OF fin, of "[''t'', ''fresh.txt'']"] e3
  have u3: "unique_path_if_exists fs_names [''t'', ''fresh.txt''] = Some [''t'', ''fresh.txt'']"
    by simp
  from unique_path_contract[OF fin, of "[''t'', ''report.txt'']"] e1
  obtain n where n: "n \<ge> 1"
    "unique_path_if_exists fs_names [''t'', ''report.txt''] = Some (sibling [''t'', ''report.txt''] n)"
    "\<forall>k. 1 \<le> k \<and> k < n \<longrightarrow> exists fs_names (sibling [''t'', ''report.txt''] k)"
    "\<not> exists fs_names (sibling [''t'', ''report.txt''] n)" by blast
  have x1: "exists fs_names (sibling [''t'', ''report.txt''] 1)"
    by (simp add: fs_names_def eval_fs eval_names)
  have x2: "\<not> exists fs_names (sibling [''t'', ''report.txt''] 2)"
    by (simp add: fs_names_def eval_fs eval_names)
  have "n = 2"
  proof (rule ccontr)
    assume ne: "n \<noteq> 2"
    show False
    proof (cases "n < 2")
      case True
      with n(1) have "n = 1" by simp
      with n(4) x1 show False by simp
    next
      case False
      with ne have "1 \<le> (2::nat) \<and> 2 < n" by simp
      with n(3) have "exists fs_names (sibling [''t'', ''report.txt''] 2)" by blast
      with x2 show False by simp
    qed
  qed
  with n(2) have u1:
    "unique_path_if_exists fs_names [''t'', ''report.txt''] = Some [''t'', ''report_2.txt'']"
    by (simp add: eval_names)
  from unique_path_contract[OF fin, of "[''t'', ''notes'']"] e2
  obtain m where m: "m \<ge> 1"
    "unique_path_if_exists fs_names [''t'', ''notes''] = Some (sibling [''t'', ''notes''] m)"
    "\<forall>k. 1 \<le> k \<and> k < m \<longrightarrow> exists fs_names (sibling [''t'', ''notes''] k)" by blast
  have y1: "\<not> exists fs_names (sibling [''t'', ''notes''] 1)"
    by (simp add: fs_names_def eval_fs eval_names)
  have "m = 1"
  proof (rule ccontr)
    assume "m \<noteq> 1"
    with m(1) have "1 \<le> (1::nat) \<and> 1 < m" by simp
    with m(3) have "exists fs_names (sibling [''t'', ''notes''] 1)" by blast
    with y1 show False by simp
  qed
  with m(2) have u2:
    "unique_path_if_exists fs_names [''t'', ''notes''] = Some [''t'', ''notes_1'']"
    by (simp add: eval_names)
  from fin e1 e2 e3 s u1 u2 u3 show ?thesis by simp
qed

text \<open>
  C3, as stated, fails in its last part: the occupied path \<open>foo.\<close> has no
  extension, and its candidate \<open>foo._1\<close> has the extension \<open>._1\<close>.
\<close>

theorem candidate_of_trailing_dot_has_extension:
  "exists fs_trailing_dot [''t'', ''foo.'']
   \<and> py_suffix (name [''t'', ''foo.'']) = []
   \<and> unique_path_if_exists fs_trailing_dot [''t'', ''foo.''] = Some [''t'', ''foo._1'']
   \<and> py_suffix (name [''t'', ''foo._1'']) = ''._1''"
  by (simp add: unique_path_if_exists_def unique_loop.simps fs_trailing_dot_def eval_fs
      eval_names)

section \<open>Moving a regular file\<close>

lemma wf_parent_exists: "wf_fs fs \<Longrightarrow> exists fs p \<Longrightarrow> exists fs (parent p)"
  by (cases "p = []") (auto simp: wf_fs_def exists_def is_dir_def parent_def split: option.splits node.splits)

lemma wf_finite: "wf_fs fs \<Longrightarrow> finite (dom (nodes fs))"
  by (simp add: wf_fs_def)

text \<open>Moving a regular file to a vacant path.\<close>

lemma move_file_vacant:
  assumes src: "nodes fs src = Some (File c)" and vac: "\<not> exists fs dst"
    and mv: "shutil_move fs src dst = (fs', r)"
  shows "(\<forall>q. q \<noteq> src \<and> q \<noteq> dst \<longrightarrow> nodes fs' q = nodes fs q)"
    and "r = None \<Longrightarrow> nodes fs' dst = Some (File c) \<and> nodes fs' src = None"
    and "r \<noteq> None \<Longrightarrow> nodes fs' src = Some (File c)
           \<and> (nodes fs' dst = None \<or> nodes fs' dst = Some (File c))"
proof -
  from src vac have ne: "src \<noteq> dst" by (auto simp: exists_def)
  from vac have nd: "\<not> is_dir fs dst" by (auto simp: exists_def is_dir_def)
  from src have nds: "\<not> is_dir fs src" by (simp add: is_dir_def)
  from mv nd have m: "move_to fs src dst = (fs', r)" by (simp add: shutil_move_def)
  have all: "(\<forall>q. q \<noteq> src \<and> q \<noteq> dst \<longrightarrow> nodes fs' q = nodes fs q)
     \<and> (r = None \<longrightarrow> nodes fs' dst = Some (File c) \<and> nodes fs' src = None)
     \<and> (r \<noteq> None \<longrightarrow> nodes fs' src = Some (File c)
           \<and> (nodes fs' dst = None \<or> nodes fs' dst = Some (File c)))"
    using m src vac ne nd nds
    by (auto simp: move_to_def os_rename_def copy2_def read_text_def write_text_def
        os_unlink_def put_def remove_def exists_def is_dir_def writable_def
        split: sum.splits option.splits node.splits if_splits)
  from all show "(\<forall>q. q \<noteq> src \<and> q \<noteq> dst \<longrightarrow> nodes fs' q = nodes fs q)" by blast
  from all show "r = None \<Longrightarrow> nodes fs' dst = Some (File c) \<and> nodes fs' src = None" by blast
  from all show "r \<noteq> None \<Longrightarrow> nodes fs' src = Some (File c)
           \<and> (nodes fs' dst = None \<or> nodes fs' dst = Some (File c))" by blast
qed

lemma move_file_finite:
  assumes src: "nodes fs src = Some (File c)" and vac: "\<not> exists fs dst"
    and mv: "shutil_move fs src dst = (fs', r)" and fin: "finite (dom (nodes fs))"
  shows "finite (dom (nodes fs'))"
proof -
  from move_file_vacant(1)[OF src vac mv]
  have "dom (nodes fs') \<subseteq> dom (nodes fs) \<union> {src, dst}" by (auto simp: dom_def)
  with fin show ?thesis by (meson finite.emptyI finite.insertI finite_UnI finite_subset)
qed

lemma move_file_copy_left:
  assumes src: "nodes fs src = Some (File c)" and vac: "\<not> exists fs dst"
    and w: "writable fs (parent dst)"
    and mv: "shutil_move fs src dst = (fs', Some e)"
  shows "nodes fs' dst = Some (File c)"
proof -
  from src vac have ne: "src \<noteq> dst" by (auto simp: exists_def)
  from vac have nd: "\<not> is_dir fs dst" by (auto simp: exists_def is_dir_def)
  from mv nd have m: "move_to fs src dst = (fs', Some e)" by (simp add: shutil_move_def)
  show ?thesis using m src vac ne nd w
    by (auto simp: move_to_def os_rename_def copy2_def read_text_def write_text_def
        os_unlink_def put_def remove_def exists_def is_dir_def writable_def
        split: sum.splits option.splits node.splits if_splits)
qed

lemma unlink_ok:
  assumes "os_unlink fs p = Inr fs2"
  shows "nodes fs2 = (nodes fs)(p := None)" and "writable fs (parent p)" and "is_file fs p"
  using assms
  by (auto simp: os_unlink_def remove_def is_file_def split: option.splits node.splits if_splits)

lemma restore_paths_overwrite:
  assumes "exists fs moved_to" "exists fs original" "exists fs (parent original)"
    "unique_path_if_exists fs original = Some tmp"
  shows "restore_paths fs False True original moved_to =
     (case os_unlink fs original of
        Inl e \<Rightarrow> fallback fs False original moved_to e
      | Inr fs2 \<Rightarrow>
          (case shutil_move fs2 moved_to original of
             (fs3, None) \<Rightarrow> Some (fs3, Restored original moved_to)
           | (fs3, Some e) \<Rightarrow> fallback fs3 False original moved_to e))"
  using assms by (simp add: restore_paths_def)

lemma fallback_file:
  assumes A: "finite (dom (nodes fsA))" "exists fsA original" "nodes fsA moved_to = Some (File c)"
  obtains n fsB rB where "n \<ge> 1"
    "unique_path_if_exists fsA original = Some (sibling original n)"
    "\<not> exists fsA (sibling original n)"
    "shutil_move fsA moved_to (sibling original n) = (fsB, rB)"
    "rB = None \<Longrightarrow> fallback fsA False original moved_to e
                 = Some (fsB, Restored (sibling original n) moved_to)
               \<and> nodes fsB (sibling original n) = Some (File c)
               \<and> nodes fsB moved_to = None"
    "\<And>ee. rB = Some ee \<Longrightarrow> fallback fsA False original moved_to e
                 = Some (fsB, Failed original moved_to (OverwriteFallback e ee))"
proof -
  from unique_occupied[OF A(1) A(2)] obtain n where n: "n \<ge> 1"
    "unique_path_if_exists fsA original = Some (sibling original n)"
    "\<not> exists fsA (sibling original n)" by blast
  obtain fsB rB where mv: "shutil_move fsA moved_to (sibling original n) = (fsB, rB)"
    by (cases "shutil_move fsA moved_to (sibling original n)")
  note fr = move_file_vacant[OF A(3) n(3) mv]
  have 1: "rB = None \<Longrightarrow> fallback fsA False original moved_to e
                 = Some (fsB, Restored (sibling original n) moved_to)
               \<and> nodes fsB (sibling original n) = Some (File c)
               \<and> nodes fsB moved_to = None"
    using n(2) mv fr(2) by (simp add: fallback_def)
  have 2: "\<And>ee. rB = Some ee \<Longrightarrow> fallback fsA False original moved_to e
                 = Some (fsB, Failed original moved_to (OverwriteFallback e ee))"
    using n(2) mv by (simp add: fallback_def)
  from that[OF n mv 1 2] show thesis .
qed

section \<open>Restore when the original exists and overwrite is off\<close>

text \<open>
  C5. On a well-formed filesystem, for a record whose \<open>moved_to\<close> is a regular file
  and whose \<open>original\<close> exists at another path, restore without overwrite takes the
  first free sibling of \<open>original\<close> from the PathNamer, relocates \<open>moved_to\<close>
  there and reports the record restored to that sibling; it reports an error exactly when
  the relocation fails. A dry run reports the same sibling and changes nothing. In every
  case the node at \<open>original\<close> is what it was, and so is every node other than
  \<open>moved_to\<close> and the sibling.
\<close>

theorem restore_no_overwrite:
  assumes wf: "wf_fs fs" and mf: "is_file fs moved_to" and oe: "exists fs original"
    and ne: "original \<noteq> moved_to"
  shows "\<exists>n\<ge>1. \<exists>fs' st.
     restore_paths fs dry_run False original moved_to = Some (fs', st)
     \<and> unique_path_if_exists fs original = Some (sibling original n)
     \<and> \<not> exists fs (sibling original n)
     \<and> (st = Restored (sibling original n) moved_to
          \<or> (\<exists>e. st = Failed original moved_to (Collision e)))
     \<and> ((\<exists>e. st = Failed original moved_to (Collision e))
          = (\<not> dry_run \<and> snd (shutil_move fs moved_to (sibling original n)) \<noteq> None))
     \<and> (st = Restored (sibling original n) moved_to \<and> \<not> dry_run \<longrightarrow>
          nodes fs' (sibling original n) = nodes fs moved_to \<and> \<not> exists fs' moved_to)
     \<and> (dry_run \<longrightarrow> fs' = fs)
     \<and> nodes fs' original = nodes fs original
     \<and> (\<forall>q. q \<noteq> moved_to \<and> q \<noteq> sibling original n \<longrightarrow> nodes fs' q = nodes fs q)"
proof -
  from mf obtain c where c: "nodes fs moved_to = Some (File c)"
    by (auto simp: is_file_def split: option.splits node.splits)
  then have me: "exists fs moved_to" by (simp add: exists_def)
  from wf_parent_exists[OF wf oe] have pe: "exists fs (parent original)" .
  from unique_occupied[OF wf_finite[OF wf] oe] obtain n where n: "n \<ge> 1"
    "unique_path_if_exists fs original = Some (sibling original n)"
    "\<not> exists fs (sibling original n)" by blast
  have so: "sibling original n \<noteq> original" by (rule sibling_neq)
  obtain fs2 r where mv: "shutil_move fs moved_to (sibling original n) = (fs2, r)"
    by (cases "shutil_move fs moved_to (sibling original n)")
  note fr = move_file_vacant[OF c n(3) mv]
  show ?thesis
  proof (cases dry_run)
    case True
    have "restore_paths fs dry_run False original moved_to
          = Some (fs, Restored (sibling original n) moved_to)"
      using True me oe n(2) by (simp add: restore_paths_def)
    with n True show ?thesis by (intro exI[of _ n]) simp
  next
    case False
    show ?thesis
    proof (cases r)
      case None
      have "restore_paths fs dry_run False original moved_to
            = Some (fs2, Restored (sibling original n) moved_to)"
        using False me oe pe n(2) mv None by (simp add: restore_paths_def)
      moreover have "nodes fs2 original = nodes fs original" using fr(1) ne so by simp
      ultimately show ?thesis using n False None mv fr(1) fr(2) c
        by (intro exI[of _ n]) (simp add: exists_def)
    next
      case (Some e)
      have "restore_paths fs dry_run False original moved_to
            = Some (fs2, Failed original moved_to (Collision e))"
        using False me oe pe n(2) mv Some by (simp add: restore_paths_def)
      moreover have "nodes fs2 original = nodes fs original" using fr(1) ne so by simp
      ultimately show ?thesis using n False Some mv fr(1)
        by (intro exI[of _ n]) simp
    qed
  qed
qed

theorem restore_no_overwrite_witness:
  "wf_fs fs_collide \<and> is_file fs_collide [''q'', ''a.txt'']
   \<and> exists fs_collide [''t'', ''a.txt'']
   \<and> (\<exists>fs'. restore_paths fs_collide False False [''t'', ''a.txt''] [''q'', ''a.txt'']
               = Some (fs', Restored [''t'', ''a_1.txt''] [''q'', ''a.txt''])
          \<and> nodes fs' [''t'', ''a.txt''] = Some (File ''x'')
          \<and> nodes fs' [''t'', ''a_1.txt''] = Some (File [])
          \<and> nodes fs' [''q'', ''a.txt''] = None)"
proof -
  have wf: "wf_fs fs_collide"
    by (simp add: wf_fs_def fs_collide_def eval_fs parent_def)
  have mf: "is_file fs_collide [''q'', ''a.txt'']" by (simp add: fs_collide_def eval_fs)
  have oe: "exists fs_collide [''t'', ''a.txt'']" by (simp add: fs_collide_def eval_fs)
  have ne: "[''t'', ''a.txt''] \<noteq> [''q'', ''a.txt'']" by simp
  have u: "unique_path_if_exists fs_collide [''t'', ''a.txt''] = Some [''t'', ''a_1.txt'']"
    by (simp add: unique_path_if_exists_def unique_loop.simps fs_collide_def eval_fs eval_names)
  have mv: "snd (shutil_move fs_collide [''q'', ''a.txt''] [''t'', ''a_1.txt'']) = None"
    by (simp add: fs_collide_def eval_ops eval_fs parent_def)
  have src: "nodes fs_collide [''q'', ''a.txt''] = Some (File [])"
    and orig: "nodes fs_collide [''t'', ''a.txt''] = Some (File ''x'')"
    by (simp_all add: fs_collide_def eval_fs)
  from restore_no_overwrite[OF wf mf oe ne, of False] u mv src orig
  have "\<exists>fs'. restore_paths fs_collide False False [''t'', ''a.txt''] [''q'', ''a.txt'']
               = Some (fs', Restored [''t'', ''a_1.txt''] [''q'', ''a.txt''])
          \<and> nodes fs' [''t'', ''a.txt''] = Some (File ''x'')
          \<and> nodes fs' [''t'', ''a_1.txt''] = Some (File [])
          \<and> nodes fs' [''q'', ''a.txt''] = None"
    by (auto simp: exists_def)
  with wf mf oe show ?thesis by simp
qed

section \<open>Restore when the original exists and overwrite is on\<close>

lemma overwrite_cases:
  assumes wf: "wf_fs fs" and mf: "is_file fs moved_to" and oe: "exists fs original"
    and ne: "original \<noteq> moved_to"
  shows "\<exists>fs' st fsA rA. restore_paths fs False True original moved_to = Some (fs', st)
          \<and> delete_then_move fs original moved_to = (fsA, rA)
          \<and> (rA = None \<longrightarrow> st = Restored original moved_to \<and> fs' = fsA
                  \<and> nodes fs' original = nodes fs moved_to \<and> \<not> exists fs' moved_to)
          \<and> (\<forall>e. rA = Some e \<longrightarrow>
                  (\<exists>n fsB rB. n \<ge> 1 \<and> unique_path_if_exists fsA original = Some (sibling original n)
                     \<and> \<not> exists fsA (sibling original n)
                     \<and> shutil_move fsA moved_to (sibling original n) = (fsB, rB)
                     \<and> fs' = fsB
                     \<and> (rB = None \<longrightarrow> st = Restored (sibling original n) moved_to
                             \<and> nodes fs' (sibling original n) = nodes fs moved_to
                             \<and> \<not> exists fs' moved_to)
                     \<and> (\<forall>ee. rB = Some ee \<longrightarrow>
                             st = Failed original moved_to (OverwriteFallback e ee))))"
proof -
  from mf obtain c where c: "nodes fs moved_to = Some (File c)"
    by (auto simp: is_file_def split: option.splits node.splits)
  then have me: "exists fs moved_to" by (simp add: exists_def)
  from wf_parent_exists[OF wf oe] have pe: "exists fs (parent original)" .
  note fin = wf_finite[OF wf]
  from unique_occupied[OF fin oe] obtain tmp where
    tmp: "unique_path_if_exists fs original = Some tmp" by blast
  note rp = restore_paths_overwrite[OF me oe pe tmp]
  show ?thesis
  proof (cases "os_unlink fs original")
    case (Inl e)
    have at: "delete_then_move fs original moved_to = (fs, Some e)" using Inl by (simp add: delete_then_move_def)
    have rp1: "restore_paths fs False True original moved_to
              = fallback fs False original moved_to e" using rp Inl by simp
    from fallback_file[OF fin oe c, of e] obtain n fsB rB where f: "n \<ge> 1"
      "unique_path_if_exists fs original = Some (sibling original n)"
      "\<not> exists fs (sibling original n)"
      "shutil_move fs moved_to (sibling original n) = (fsB, rB)"
      "rB = None \<Longrightarrow> fallback fs False original moved_to e
                 = Some (fsB, Restored (sibling original n) moved_to)
               \<and> nodes fsB (sibling original n) = Some (File c)
               \<and> nodes fsB moved_to = None"
      "\<And>ee. rB = Some ee \<Longrightarrow> fallback fs False original moved_to e
                 = Some (fsB, Failed original moved_to (OverwriteFallback e ee))" by blast
    show ?thesis
    proof (cases rB)
      case None
      from f(5)[OF None] rp1 have
        r: "restore_paths fs False True original moved_to
              = Some (fsB, Restored (sibling original n) moved_to)"
        and k: "nodes fsB (sibling original n) = Some (File c)" "nodes fsB moved_to = None"
        by simp_all
      show ?thesis
        apply (rule exI[of _ fsB], rule exI[of _ "Restored (sibling original n) moved_to"])
        apply (rule exI[of _ fs], rule exI[of _ "Some e"])
        apply (intro conjI r at)
         apply simp
        apply (intro allI impI)
        apply (rule exI[of _ n], rule exI[of _ fsB], rule exI[of _ rB])
        using f(1-4) None k c by (simp add: exists_def)
    next
      case (Some ee)
      from f(6)[OF Some] rp1 have
        r: "restore_paths fs False True original moved_to
              = Some (fsB, Failed original moved_to (OverwriteFallback e ee))" by simp
      show ?thesis
        apply (rule exI[of _ fsB], rule exI[of _ "Failed original moved_to (OverwriteFallback e ee)"])
        apply (rule exI[of _ fs], rule exI[of _ "Some e"])
        apply (intro conjI r at)
         apply simp
        apply (intro allI impI)
        apply (rule exI[of _ n], rule exI[of _ fsB], rule exI[of _ rB])
        using f(1-4) Some by simp
    qed
  next
    case (Inr fs2)
    note u = unlink_ok[OF Inr]
    from u(1) have vac2: "\<not> exists fs2 original" by (simp add: exists_def)
    from u(1) c ne have c2: "nodes fs2 moved_to = Some (File c)" by simp
    from u(1) fin have fin2: "finite (dom (nodes fs2))" by simp
    from u have w2: "writable fs2 (parent original)"
      by (auto simp: writable_def is_file_def split: option.splits node.splits)
    obtain fs3 r3 where mv3: "shutil_move fs2 moved_to original = (fs3, r3)"
      by (cases "shutil_move fs2 moved_to original")
    have at: "delete_then_move fs original moved_to = (fs3, r3)" using Inr mv3 by (simp add: delete_then_move_def)
    note fr3 = move_file_vacant[OF c2 vac2 mv3]
    show ?thesis
    proof (cases r3)
      case None
      have r: "restore_paths fs False True original moved_to
              = Some (fs3, Restored original moved_to)"
        using rp Inr mv3 None by simp
      show ?thesis
        apply (rule exI[of _ fs3], rule exI[of _ "Restored original moved_to"])
        apply (rule exI[of _ fs3], rule exI[of _ r3])
        apply (intro conjI r at)
        using None fr3(2) c by (simp_all add: exists_def)
    next
      case (Some e)
      have rp1: "restore_paths fs False True original moved_to
              = fallback fs3 False original moved_to e"
        using rp Inr mv3 Some by simp
      from mv3 Some have mv3': "shutil_move fs2 moved_to original = (fs3, Some e)" by simp
      from move_file_copy_left[OF c2 vac2 w2 mv3'] have oe3: "exists fs3 original"
        by (simp add: exists_def)
      from fr3(3) Some have c3: "nodes fs3 moved_to = Some (File c)" by simp
      note fin3 = move_file_finite[OF c2 vac2 mv3 fin2]
      from fallback_file[OF fin3 oe3 c3, of e] obtain n fsB rB where f: "n \<ge> 1"
        "unique_path_if_exists fs3 original = Some (sibling original n)"
        "\<not> exists fs3 (sibling original n)"
        "shutil_move fs3 moved_to (sibling original n) = (fsB, rB)"
        "rB = None \<Longrightarrow> fallback fs3 False original moved_to e
                 = Some (fsB, Restored (sibling original n) moved_to)
               \<and> nodes fsB (sibling original n) = Some (File c)
               \<and> nodes fsB moved_to = None"
        "\<And>ee. rB = Some ee \<Longrightarrow> fallback fs3 False original moved_to e
                 = Some (fsB, Failed original moved_to (OverwriteFallback e ee))" by blast
      show ?thesis
      proof (cases rB)
        case None
        from f(5)[OF None] rp1 have
          r: "restore_paths fs False True original moved_to
              = Some (fsB, Restored (sibling original n) moved_to)"
          and k: "nodes fsB (sibling original n) = Some (File c)" "nodes fsB moved_to = None"
          by simp_all
        show ?thesis
          apply (rule exI[of _ fsB], rule exI[of _ "Restored (sibling original n) moved_to"])
          apply (rule exI[of _ fs3], rule exI[of _ "Some e"])
          apply (intro conjI r)
            apply (simp add: at Some)
           apply simp
          apply (intro allI impI)
          apply (rule exI[of _ n], rule exI[of _ fsB], rule exI[of _ rB])
          using f(1-4) None k c by (simp add: exists_def)
      next
        case S2: (Some ee)
        from f(6)[OF S2] rp1 have
          r: "restore_paths fs False True original moved_to
              = Some (fsB, Failed original moved_to (OverwriteFallback e ee))" by simp
        show ?thesis
          apply (rule exI[of _ fsB], rule exI[of _ "Failed original moved_to (OverwriteFallback e ee)"])
          apply (rule exI[of _ fs3], rule exI[of _ "Some e"])
          apply (intro conjI r)
            apply (simp add: at Some)
           apply simp
          apply (intro allI impI)
          apply (rule exI[of _ n], rule exI[of _ fsB], rule exI[of _ rB])
          using f(1-4) S2 by simp
      qed
    qed
  qed
qed

text \<open>
  C4. On a well-formed filesystem, for a record whose \<open>moved_to\<close> is a regular file
  and whose \<open>original\<close> exists at another path, restore with overwrite first deletes
  \<open>original\<close> and relocates \<open>moved_to\<close> to it; when both succeed the record is
  reported restored to \<open>original\<close>, which then holds the quarantined file. When the
  deletion or the relocation raises, \<open>moved_to\<close> is relocated to the first free
  PathNamer sibling of \<open>original\<close> and the record is reported restored to that
  sibling. The record is an error only when this second relocation raises too. A dry run
  attempts nothing and reports the record restored to \<open>original\<close>.
\<close>

theorem restore_overwrite:
  assumes wf: "wf_fs fs" and mf: "is_file fs moved_to" and oe: "exists fs original"
    and ne: "original \<noteq> moved_to"
  shows "restore_paths fs True True original moved_to = Some (fs, Restored original moved_to)
     \<and> (\<exists>fs' st fsA rA. restore_paths fs False True original moved_to = Some (fs', st)
          \<and> delete_then_move fs original moved_to = (fsA, rA)
          \<and> (rA = None \<longrightarrow> st = Restored original moved_to \<and> fs' = fsA
                  \<and> nodes fs' original = nodes fs moved_to \<and> \<not> exists fs' moved_to)
          \<and> (\<forall>e. rA = Some e \<longrightarrow>
                  (\<exists>n fsB rB. n \<ge> 1 \<and> unique_path_if_exists fsA original = Some (sibling original n)
                     \<and> \<not> exists fsA (sibling original n)
                     \<and> shutil_move fsA moved_to (sibling original n) = (fsB, rB)
                     \<and> fs' = fsB
                     \<and> (rB = None \<longrightarrow> st = Restored (sibling original n) moved_to
                             \<and> nodes fs' (sibling original n) = nodes fs moved_to
                             \<and> \<not> exists fs' moved_to)
                     \<and> (\<forall>ee. rB = Some ee \<longrightarrow>
                             st = Failed original moved_to (OverwriteFallback e ee)))))"
proof (rule conjI)
  from mf have me: "exists fs moved_to"
    by (auto simp: is_file_def exists_def split: option.splits)
  show "restore_paths fs True True original moved_to = Some (fs, Restored original moved_to)"
    using me oe by (simp add: restore_paths_def)
qed (rule overwrite_cases[OF assms])

theorem restore_overwrite_witness:
  "wf_fs fs_collide \<and> is_file fs_collide [''q'', ''a.txt''] \<and> exists fs_collide [''t'', ''a.txt'']
   \<and> (\<exists>fs'. restore_paths fs_collide False True [''t'', ''a.txt''] [''q'', ''a.txt'']
               = Some (fs', Restored [''t'', ''a.txt''] [''q'', ''a.txt''])
          \<and> nodes fs' [''t'', ''a.txt''] = Some (File [])
          \<and> nodes fs' [''q'', ''a.txt''] = None)
   \<and> wf_fs fs_dir_at_original
   \<and> (\<exists>fs'. restore_paths fs_dir_at_original False True [''t'', ''a.txt''] [''q'', ''a.txt'']
               = Some (fs', Restored [''t'', ''a_1.txt''] [''q'', ''a.txt''])
          \<and> nodes fs' [''t'', ''a_1.txt''] = Some (File [])
          \<and> nodes fs' [''t'', ''a.txt''] = Some (Dir True))
   \<and> wf_fs fs_locked
   \<and> (\<exists>fs'. restore_paths fs_locked False True [''t'', ''a.txt''] [''q'', ''a.txt'']
               = Some (fs', Failed [''t'', ''a.txt''] [''q'', ''a.txt'']
                              (OverwriteFallback PermissionError PermissionError)))"
proof -
  let ?o = "[''t'', ''a.txt'']" and ?m = "[''q'', ''a.txt'']"
  have ne: "?o \<noteq> ?m" by simp
  have wf1: "wf_fs fs_collide" by (simp add: wf_fs_def fs_collide_def eval_fs parent_def)
  have mf1: "is_file fs_collide ?m" and oe1: "exists fs_collide ?o"
    and src1: "nodes fs_collide ?m = Some (File [])"
    by (simp_all add: fs_collide_def eval_fs)
  have at1: "snd (delete_then_move fs_collide ?o ?m) = None"
    by (simp add: delete_then_move_def fs_collide_def eval_ops eval_fs parent_def)
  from restore_overwrite[OF wf1 mf1 oe1 ne] at1 src1
  have A: "\<exists>fs'. restore_paths fs_collide False True ?o ?m = Some (fs', Restored ?o ?m)
          \<and> nodes fs' ?o = Some (File []) \<and> nodes fs' ?m = None"
    by (auto simp: exists_def)
  have wf2: "wf_fs fs_dir_at_original"
    by (simp add: wf_fs_def fs_dir_at_original_def eval_fs parent_def)
  have mf2: "is_file fs_dir_at_original ?m" and oe2: "exists fs_dir_at_original ?o"
    and src2: "nodes fs_dir_at_original ?m = Some (File [])"
    and o2: "nodes fs_dir_at_original ?o = Some (Dir True)"
    by (simp_all add: fs_dir_at_original_def eval_fs)
  have at2: "delete_then_move fs_dir_at_original ?o ?m = (fs_dir_at_original, Some IsADirectoryError)"
    by (simp add: delete_then_move_def fs_dir_at_original_def eval_ops eval_fs parent_def)
  have u2: "unique_path_if_exists fs_dir_at_original ?o = Some [''t'', ''a_1.txt'']"
    by (simp add: unique_path_if_exists_def unique_loop.simps fs_dir_at_original_def
        eval_fs eval_names)
  have mv2: "snd (shutil_move fs_dir_at_original ?m [''t'', ''a_1.txt'']) = None"
    "nodes (fst (shutil_move fs_dir_at_original ?m [''t'', ''a_1.txt''])) ?o = Some (Dir True)"
    by (simp_all add: fs_dir_at_original_def eval_ops eval_fs parent_def)
  from restore_overwrite[OF wf2 mf2 oe2 ne] at2 u2 mv2 src2
  have B: "\<exists>fs'. restore_paths fs_dir_at_original False True ?o ?m
               = Some (fs', Restored [''t'', ''a_1.txt''] ?m)
          \<and> nodes fs' [''t'', ''a_1.txt''] = Some (File [])
          \<and> nodes fs' ?o = Some (Dir True)"
    by (auto simp: exists_def)
  have wf3: "wf_fs fs_locked" by (simp add: wf_fs_def fs_locked_def eval_fs parent_def)
  have mf3: "is_file fs_locked ?m" and oe3: "exists fs_locked ?o"
    by (simp_all add: fs_locked_def eval_fs)
  have at3: "delete_then_move fs_locked ?o ?m = (fs_locked, Some PermissionError)"
    by (simp add: delete_then_move_def fs_locked_def eval_ops eval_fs parent_def)
  have u3: "unique_path_if_exists fs_locked ?o = Some [''t'', ''a_1.txt'']"
    by (simp add: unique_path_if_exists_def unique_loop.simps fs_locked_def eval_fs eval_names)
  have mv3: "snd (shutil_move fs_locked ?m [''t'', ''a_1.txt'']) = Some PermissionError"
    by (simp add: fs_locked_def eval_ops eval_fs parent_def)
  from restore_overwrite[OF wf3 mf3 oe3 ne] at3 u3 mv3
  have C: "\<exists>fs'. restore_paths fs_locked False True ?o ?m
               = Some (fs', Failed ?o ?m (OverwriteFallback PermissionError PermissionError))"
    by auto
  from wf1 mf1 oe1 A wf2 B wf3 C show ?thesis by simp
qed

section \<open>Records whose quarantined file is missing\<close>

lemma restore_entry_paths:
  "entry_paths e = Some (original, moved_to) \<Longrightarrow>
   restore_entry fs dry_run yes e =
     (case restore_paths fs dry_run yes original moved_to of
        None \<Rightarrow> None
      | Some (fs', st) \<Rightarrow> Some (fs', Inr st))"
  by (auto simp: entry_paths_def restore_entry_def path_of_json_def
      split: json.splits option.splits)

lemma restore_paths_missing:
  "\<not> exists fs moved_to \<Longrightarrow>
   restore_paths fs dry_run yes original moved_to
     = Some (fs, Skipped original moved_to ''moved file missing'')"
  by (simp add: restore_paths_def)

lemma restore_records_missing:
  assumes "\<forall>e \<in> set entries. \<exists>original moved_to.
             entry_paths e = Some (original, moved_to) \<and> \<not> exists fs moved_to"
  shows "restore_records fs dry_run yes entries rep
         = Some (fs, Inr (rep\<lparr>skipped := skipped rep @ map skipped_entry entries\<rparr>))"
  using assms
proof (induction entries arbitrary: rep)
  case Nil
  then show ?case by simp
next
  case (Cons e es)
  from Cons.prems obtain original moved_to where
    p: "entry_paths e = Some (original, moved_to)" "\<not> exists fs moved_to" by auto
  have s: "restore_entry fs dry_run yes e
           = Some (fs, Inr (Skipped original moved_to ''moved file missing''))"
    by (simp add: restore_entry_paths[OF p(1)] restore_paths_missing[OF p(2)])
  have k: "skipped_entry e = (original, moved_to, ''moved file missing'')"
    using p(1) by (simp add: skipped_entry_def)
  from Cons.prems have rest: "\<forall>e \<in> set es. \<exists>original moved_to.
             entry_paths e = Some (original, moved_to) \<and> \<not> exists fs moved_to" by simp
  show ?case by (simp add: s k Cons.IH[OF rest])
qed

text \<open>
  C7. A record whose \<open>moved_to\<close> does not exist is classified skipped with the
  reason \<open>moved file missing\<close> and nothing else is done for it. So on a journal all
  of whose \<open>moved_to\<close> targets are gone, restore (dry run or not, overwrite or not)
  reports every record skipped, nothing restored and no error, and leaves the filesystem as
  it was; running it again therefore gives the same report.
\<close>

theorem restore_missing_skipped:
  assumes "\<forall>e \<in> set entries. \<exists>original moved_to.
             entry_paths e = Some (original, moved_to) \<and> \<not> exists fs moved_to"
  shows "(\<forall>e \<in> set entries.
            restore_entry fs dry_run yes e = Some (fs, Inr (Skipped (fst (skipped_entry e))
               (fst (snd (skipped_entry e))) ''moved file missing'')))
     \<and> restore_records fs dry_run yes entries empty_report
         = Some (fs, Inr \<lparr>restored = [], skipped = map skipped_entry entries, errors = []\<rparr>)
     \<and> (\<forall>e \<in> set entries. snd (snd (skipped_entry e)) = ''moved file missing'')"
proof (intro conjI ballI)
  fix e assume "e \<in> set entries"
  with assms obtain original moved_to where
    p: "entry_paths e = Some (original, moved_to)" "\<not> exists fs moved_to" by auto
  have k: "skipped_entry e = (original, moved_to, ''moved file missing'')"
    using p(1) by (simp add: skipped_entry_def)
  show "restore_entry fs dry_run yes e = Some (fs, Inr (Skipped (fst (skipped_entry e))
               (fst (snd (skipped_entry e))) ''moved file missing''))"
    by (simp add: restore_entry_paths[OF p(1)] restore_paths_missing[OF p(2)] k)
  show "snd (snd (skipped_entry e)) = ''moved file missing''" by (simp add: k)
next
  show "restore_records fs dry_run yes entries empty_report
         = Some (fs, Inr \<lparr>restored = [], skipped = map skipped_entry entries, errors = []\<rparr>)"
    by (simp add: restore_records_missing[OF assms] empty_report_def)
qed

theorem restore_missing_skipped_witness:
  "\<not> exists fs_quarantined [''q'', ''b.txt''] \<and> \<not> exists fs_quarantined [''q'', ''c.txt'']
   \<and> restore_records fs_quarantined False False gone_entries empty_report
       = Some (fs_quarantined, Inr \<lparr>restored = [],
           skipped = [([''t'', ''b.txt''], [''q'', ''b.txt''], ''moved file missing''),
                      ([''t'', ''c.txt''], [''q'', ''c.txt''], ''moved file missing'')],
           errors = []\<rparr>)"
proof -
  have g: "\<not> exists fs_quarantined [''q'', ''b.txt'']" "\<not> exists fs_quarantined [''q'', ''c.txt'']"
    by (simp_all add: fs_quarantined_def eval_fs)
  have p: "entry_paths (gone_entries ! 0) = Some ([''t'', ''b.txt''], [''q'', ''b.txt''])"
    "entry_paths (gone_entries ! 1) = Some ([''t'', ''c.txt''], [''q'', ''c.txt''])"
    by (simp_all add: gone_entries_def eval_json)
  have h: "\<forall>e \<in> set gone_entries. \<exists>original moved_to.
             entry_paths e = Some (original, moved_to) \<and> \<not> exists fs_quarantined moved_to"
    using g p by (simp add: gone_entries_def)
  have m: "map skipped_entry gone_entries
           = [([''t'', ''b.txt''], [''q'', ''b.txt''], ''moved file missing''),
              ([''t'', ''c.txt''], [''q'', ''c.txt''], ''moved file missing'')]"
    using p by (simp add: gone_entries_def skipped_entry_def)
  from restore_missing_skipped[OF h, of False False] m g show ?thesis by simp
qed

section \<open>The action field\<close>

lemma map_of_retag:
  "k \<noteq> ''action'' \<Longrightarrow>
   map_of (map (\<lambda>(k, v). if k = ''action'' then (k, JStr a) else (k, v)) xs) k = map_of xs k"
  by (induction xs) auto

lemma dict_get_retag:
  "k \<noteq> ''action'' \<Longrightarrow>
   dict_get (map (\<lambda>(k, v). if k = ''action'' then (k, JStr a) else (k, v)) kv) k = dict_get kv k"
  by (simp add: dict_get_def rev_map map_of_retag)

lemma restore_entry_retag: "restore_entry fs dry_run yes (retag a e) = restore_entry fs dry_run yes e"
  by (cases e) (simp_all add: retag_def restore_entry_def dict_get_retag split: sum.splits)

lemma move_all_tagged:
  "move_all clock i fs quarantine_dir preserve target srcs = Some (fs', metas, out) \<Longrightarrow>
   \<forall>m \<in> set metas. \<exists>kv. m = JObj kv \<and> dict_get kv ''action'' = Some (JStr ''moved'')"
proof (induction srcs arbitrary: i fs fs' metas out)
  case Nil
  then show ?case by simp
next
  case (Cons src rest)
  show ?case
  proof (cases "safe_move (clock i) fs src quarantine_dir preserve target False")
    case None
    with Cons.prems show ?thesis by simp
  next
    case (Some r)
    obtain fs1 res where r: "r = (fs1, res)" by (cases r)
    show ?thesis
    proof (cases res)
      case (Inl e)
      with Cons.prems Some r obtain fs2 out2 where
        "move_all clock (i + 1) fs1 quarantine_dir preserve target rest = Some (fs2, metas, out2)"
        by (auto split: option.splits)
      from Cons.IH[OF this] show ?thesis .
    next
      case (Inr dm)
      obtain dest meta where dm: "dm = (dest, meta)" by (cases dm)
      from Cons.prems Some r Inr dm obtain fs2 metas2 out2 where
        rec: "move_all clock (i + 1) fs1 quarantine_dir preserve target rest = Some (fs2, metas2, out2)"
        and ms: "metas = meta # metas2"
        by (auto split: option.splits)
      from Some r Inr dm have "\<exists>sz. meta = metadata src dest sz (clock i) ''moved''"
        by (auto simp: safe_move_def Let_def split: prod.splits option.splits)
      then have "\<exists>kv. meta = JObj kv \<and> dict_get kv ''action'' = Some (JStr ''moved'')"
        by (auto simp: metadata_def dict_get_def)
      with Cons.IH[OF rec] ms show ?thesis by simp
    qed
  qed
qed

lemma move_all_fs_scan: "\<exists>fs1 out. move_all clock0 0 fs_scan [''q''] False [''t''] [[''t'', ''a.txt'']]
     = Some (fs1, [metadata [''t'', ''a.txt''] [''q'', ''a.txt''] (JNum 0)
                     ''2024-01-01 00:00:00'' ''moved''], out)"
  by (simp add: fs_scan_def clock0_def eval_move eval_mkdir eval_ops eval_fs eval_names)

text \<open>
  C2, as the code has it. The restore loop never reads the \<open>action\<close> of a record:
  replacing the action of every entry by any other leaves the run unchanged, so a record
  tagged \<open>dry-run\<close> is replayed exactly as one tagged \<open>moved\<close>. What keeps
  dry-run records out of a journal is the scan flow: every record its move loop collects
  is tagged \<open>moved\<close>.
\<close>

theorem restore_ignores_action:
  "restore_records fs dry_run yes (map (retag a) entries) rep
     = restore_records fs dry_run yes entries rep
   \<and> (move_all clock i fs0 quarantine_dir preserve target srcs = Some (fs1, metas, out) \<longrightarrow>
        (\<forall>m \<in> set metas. \<exists>kv. m = JObj kv \<and> dict_get kv ''action'' = Some (JStr ''moved'')))"
proof
  show "restore_records fs dry_run yes (map (retag a) entries) rep
     = restore_records fs dry_run yes entries rep"
    by (induction entries arbitrary: fs rep)
       (simp_all add: restore_entry_retag split: option.splits sum.splits prod.splits)
  show "move_all clock i fs0 quarantine_dir preserve target srcs = Some (fs1, metas, out) \<longrightarrow>
        (\<forall>m \<in> set metas. \<exists>kv. m = JObj kv \<and> dict_get kv ''action'' = Some (JStr ''moved''))"
    using move_all_tagged by blast
qed

theorem restore_ignores_action_witness:
  "restore_records fs_quarantined False False [retag ''moved'' dry_run_entry] empty_report
     = restore_records fs_quarantined False False [dry_run_entry] empty_report
   \<and> (\<exists>fs1 m out. move_all clock0 0 fs_scan [''q''] False [''t''] [[''t'', ''a.txt'']]
          = Some (fs1, [m], out)
        \<and> (\<exists>kv. m = JObj kv \<and> dict_get kv ''action'' = Some (JStr ''moved'')))"
proof -
  from move_all_fs_scan obtain fs1 out where
    m: "move_all clock0 0 fs_scan [''q''] False [''t''] [[''t'', ''a.txt'']]
     = Some (fs1, [metadata [''t'', ''a.txt''] [''q'', ''a.txt''] (JNum 0)
                     ''2024-01-01 00:00:00'' ''moved''], out)" by blast
  note t = restore_ignores_action[of fs_quarantined False False "''moved''" "[dry_run_entry]"
      empty_report clock0 0 fs_scan "[''q'']" False "[''t'']" "[[''t'', ''a.txt'']]" fs1
      "[metadata [''t'', ''a.txt''] [''q'', ''a.txt''] (JNum 0) ''2024-01-01 00:00:00'' ''moved'']"
      out]
  from t m show ?thesis by simp
qed

text \<open>
  C2, as stated, fails: a record tagged \<open>dry-run\<close> whose \<open>moved_to\<close> exists is
  relocated to its original path and reported restored.
\<close>

theorem restore_replays_dry_run_record:
  "(\<exists>kv. dry_run_entry = JObj kv \<and> dict_get kv ''action'' = Some (JStr ''dry-run''))
   \<and> exists fs_quarantined [''q'', ''a.txt'']
   \<and> (\<exists>fs'. restore_records fs_quarantined False False [dry_run_entry] empty_report
               = Some (fs', Inr \<lparr>restored = [([''t'', ''a.txt''], [''q'', ''a.txt''])],
                                skipped = [], errors = []\<rparr>)
          \<and> nodes fs' [''t'', ''a.txt''] = Some (File [])
          \<and> nodes fs' [''q'', ''a.txt''] = None)"
  by (simp add: dry_run_entry_def fs_quarantined_def restore_entry_def restore_paths_def
      empty_report_def eval_json eval_fs eval_ops parent_def)

section \<open>Creating directories\<close>

text \<open>In a well-formed filesystem the ancestors of a node exist and are directories.\<close>

lemma can_make_dirs_iff:
  "can_make_dirs fs p \<longleftrightarrow>
     (\<forall>q. prefix q p \<and> exists fs q \<longrightarrow>
          is_dir fs q \<and>
          (q \<noteq> p \<and> \<not> exists fs (take (Suc (length q)) p) \<longrightarrow> writable fs q))"
  by (auto simp: can_make_dirs_def)

lemma is_dir_exists: "is_dir fs p \<Longrightarrow> exists fs p"
  by (auto simp: is_dir_def exists_def split: option.splits)

lemma wf_parent_dir: "wf_fs fs \<Longrightarrow> exists fs (xs @ [x]) \<Longrightarrow> is_dir fs xs"
  by (auto simp: wf_fs_def exists_def parent_def dom_def)

lemma wf_prefix:
  "wf_fs fs \<Longrightarrow> exists fs xs \<Longrightarrow> prefix q xs \<Longrightarrow> exists fs q \<and> (q \<noteq> xs \<longrightarrow> is_dir fs q)"
proof (induction xs rule: rev_induct)
  case Nil
  then show ?case by simp
next
  case (snoc x xs)
  from wf_parent_dir[OF snoc.prems(1,2)] have d: "is_dir fs xs" .
  then have e: "exists fs xs" by (rule is_dir_exists)
  from snoc.prems(3) have "q = xs @ [x] \<or> prefix q xs" by simp
  then show ?case
  proof
    assume "q = xs @ [x]"
    with snoc.prems(2) show ?thesis by simp
  next
    assume p: "prefix q xs"
    from snoc.IH[OF snoc.prems(1) e p] d show ?thesis
      by (cases "q = xs") (auto intro: is_dir_exists)
  qed
qed

lemma take_Suc_prefix:
  "prefix q xs \<Longrightarrow> q \<noteq> xs \<Longrightarrow> take (Suc (length q)) (xs @ [x]) = take (Suc (length q)) xs"
proof -
  assume "prefix q xs" and ne: "q \<noteq> xs"
  then obtain zs where z: "xs = q @ zs" by (auto simp: prefix_def)
  with ne have "zs \<noteq> []" by auto
  then show ?thesis using z by (cases zs) auto
qed

lemma can_make_present:
  assumes wf: "wf_fs fs" and e: "exists fs xs"
  shows "can_make_dirs fs (xs @ [x])
         = (is_dir fs xs \<and> (if exists fs (xs @ [x]) then is_dir fs (xs @ [x])
                             else writable fs xs))"
proof -
  have inner: "is_dir fs q \<and> (q \<noteq> xs @ [x] \<and> \<not> exists fs (take (Suc (length q)) (xs @ [x]))
                 \<longrightarrow> writable fs q)"
    if q: "prefix q xs" "q \<noteq> xs" for q
  proof -
    from wf_prefix[OF wf e q(1)] q(2) have d: "is_dir fs q" by simp
    have "prefix (take (Suc (length q)) xs) xs" by (rule take_is_prefix)
    from wf_prefix[OF wf e this] have "exists fs (take (Suc (length q)) xs)" by simp
    with take_Suc_prefix[OF q] d show ?thesis by simp
  qed
  show ?thesis
  proof
    assume c: "can_make_dirs fs (xs @ [x])"
    have at_xs: "is_dir fs xs \<and> (xs \<noteq> xs @ [x]
        \<and> \<not> exists fs (take (Suc (length xs)) (xs @ [x])) \<longrightarrow> writable fs xs)"
      using c[unfolded can_make_dirs_iff, rule_format, of xs] e by simp
    then have "is_dir fs xs" by simp
    moreover from at_xs have "\<not> exists fs (xs @ [x]) \<longrightarrow> writable fs xs" by simp
    moreover have "exists fs (xs @ [x]) \<longrightarrow> is_dir fs (xs @ [x])"
      using c[unfolded can_make_dirs_iff, rule_format, of "xs @ [x]"] by simp
    ultimately show "is_dir fs xs \<and> (if exists fs (xs @ [x]) then is_dir fs (xs @ [x])
                             else writable fs xs)" by simp
  next
    assume r: "is_dir fs xs \<and> (if exists fs (xs @ [x]) then is_dir fs (xs @ [x])
                             else writable fs xs)"
    show "can_make_dirs fs (xs @ [x])"
      unfolding can_make_dirs_iff
    proof (intro allI impI)
      fix q assume q: "prefix q (xs @ [x]) \<and> exists fs q"
      then have "q = xs @ [x] \<or> q = xs \<or> (prefix q xs \<and> q \<noteq> xs)" by auto
      then show "is_dir fs q \<and> (q \<noteq> xs @ [x] \<and> \<not> exists fs (take (Suc (length q)) (xs @ [x]))
                 \<longrightarrow> writable fs q)"
      proof (elim disjE)
        assume "q = xs @ [x]"
        with q r show ?thesis by (auto split: if_splits)
      next
        assume "q = xs"
        with r show ?thesis by (auto split: if_splits)
      next
        assume "prefix q xs \<and> q \<noteq> xs"
        then show ?thesis using inner by blast
      qed
    qed
  qed
qed

text \<open>Directories already made do not change what the remaining call finds.\<close>

lemma wf_child_missing: "wf_fs fs \<Longrightarrow> \<not> exists fs xs \<Longrightarrow> \<not> exists fs (xs @ [x])"
  using wf_parent_dir is_dir_exists by blast

lemma can_make_absent:
  assumes wf: "wf_fs fs" and ne: "\<not> exists fs xs"
  shows "can_make_dirs fs (xs @ [x]) = can_make_dirs fs xs"
proof -
  note nc = wf_child_missing[OF wf ne]
  have eq: "(q \<noteq> xs @ [x] \<and> \<not> exists fs (take (Suc (length q)) (xs @ [x])))
            = (q \<noteq> xs \<and> \<not> exists fs (take (Suc (length q)) xs))"
    if q: "prefix q xs" "exists fs q" for q
  proof -
    from q ne have qx: "q \<noteq> xs" by auto
    from q(1) have "q \<noteq> xs @ [x]" by (auto simp: prefix_def)
    with take_Suc_prefix[OF q(1) qx] qx show ?thesis by simp
  qed
  show ?thesis
    unfolding can_make_dirs_iff
  proof
    assume a: "\<forall>q. prefix q (xs @ [x]) \<and> exists fs q \<longrightarrow>
          is_dir fs q \<and> (q \<noteq> xs @ [x] \<and> \<not> exists fs (take (Suc (length q)) (xs @ [x]))
             \<longrightarrow> writable fs q)"
    show "\<forall>q. prefix q xs \<and> exists fs q \<longrightarrow>
          is_dir fs q \<and> (q \<noteq> xs \<and> \<not> exists fs (take (Suc (length q)) xs) \<longrightarrow> writable fs q)"
    proof (intro allI impI)
      fix q assume q: "prefix q xs \<and> exists fs q"
      then have "prefix q (xs @ [x]) \<and> exists fs q" by simp
      with a have "is_dir fs q \<and> (q \<noteq> xs @ [x] \<and> \<not> exists fs (take (Suc (length q)) (xs @ [x]))
             \<longrightarrow> writable fs q)" by blast
      with eq q show "is_dir fs q \<and> (q \<noteq> xs \<and> \<not> exists fs (take (Suc (length q)) xs)
             \<longrightarrow> writable fs q)" by blast
    qed
  next
    assume a: "\<forall>q. prefix q xs \<and> exists fs q \<longrightarrow>
          is_dir fs q \<and> (q \<noteq> xs \<and> \<not> exists fs (take (Suc (length q)) xs) \<longrightarrow> writable fs q)"
    show "\<forall>q. prefix q (xs @ [x]) \<and> exists fs q \<longrightarrow>
          is_dir fs q \<and> (q \<noteq> xs @ [x] \<and> \<not> exists fs (take (Suc (length q)) (xs @ [x]))
             \<longrightarrow> writable fs q)"
    proof (intro allI impI)
      fix q assume q: "prefix q (xs @ [x]) \<and> exists fs q"
      with nc have q': "prefix q xs \<and> exists fs q" by auto
      with a have "is_dir fs q \<and> (q \<noteq> xs \<and> \<not> exists fs (take (Suc (length q)) xs)
             \<longrightarrow> writable fs q)" by blast
      with eq q' show "is_dir fs q \<and> (q \<noteq> xs @ [x]
             \<and> \<not> exists fs (take (Suc (length q)) (xs @ [x])) \<longrightarrow> writable fs q)" by blast
    qed
  qed
qed

lemma made_dirs_all_present: "(\<And>q. prefix q p \<Longrightarrow> exists fs q) \<Longrightarrow> made_dirs fs p = fs"
proof -
  assume a: "\<And>q. prefix q p \<Longrightarrow> exists fs q"
  have "(\<lambda>q. if prefix q p \<and> \<not> exists fs q then Some (Dir True) else nodes fs q) = nodes fs"
    using a by (auto simp: fun_eq_iff)
  then show ?thesis by (simp add: made_dirs_def)
qed

lemma made_dirs_last:
  assumes "\<And>q. prefix q xs \<Longrightarrow> exists fs q" and "\<not> exists fs (xs @ [x])"
  shows "made_dirs fs (xs @ [x]) = put fs (xs @ [x]) (Dir True)"
proof -
  have "(\<lambda>q. if prefix q (xs @ [x]) \<and> \<not> exists fs q then Some (Dir True) else nodes fs q)
        = (nodes fs)(xs @ [x] \<mapsto> Dir True)"
    using assms by (auto simp: fun_eq_iff)
  then show ?thesis by (simp add: made_dirs_def put_def)
qed

lemma made_dirs_step:
  assumes "\<not> exists fs (xs @ [x])"
  shows "put (made_dirs fs xs) (xs @ [x]) (Dir True) = made_dirs fs (xs @ [x])"
proof -
  have "(\<lambda>q. if prefix q xs \<and> \<not> exists fs q then Some (Dir True) else nodes fs q)
          (xs @ [x] \<mapsto> Dir True)
        = (\<lambda>q. if prefix q (xs @ [x]) \<and> \<not> exists fs q then Some (Dir True) else nodes fs q)"
    using assms by (auto simp: fun_eq_iff)
  then show ?thesis by (simp add: made_dirs_def put_def)
qed

lemma made_dirs_nodes:
  "nodes (made_dirs fs p) q
     = (if prefix q p \<and> \<not> exists fs q then Some (Dir True) else nodes fs q)"
  by (simp add: made_dirs_def)

lemma path_mkdir_result:
  assumes wf: "wf_fs fs"
  shows "path_mkdir fs p
         = (if can_make_dirs fs p then (made_dirs fs p, None)
            else (fs, snd (path_mkdir fs p)))
         \<and> (\<not> can_make_dirs fs p \<longrightarrow> snd (path_mkdir fs p) \<noteq> None)"
proof (induction p rule: rev_induct)
  case Nil
  from wf have r: "is_dir fs []" by (simp add: wf_fs_def)
  then have c: "can_make_dirs fs []" by (simp add: can_make_dirs_def)
  from r have m: "made_dirs fs [] = fs"
    by (intro made_dirs_all_present) (simp add: is_dir_exists)
  from r have "path_mkdir fs [] = (fs, None)"
    by (subst path_mkdir.simps)
       (auto simp: os_mkdir_def parent_def is_dir_def exists_def split: option.splits node.splits)
  with c m show ?case by simp
next
  case (snoc x xs)
  let ?p = "xs @ [x]"
  have par: "parent ?p = xs" "parent ?p \<noteq> ?p" by (simp_all add: parent_def)
  show ?case
  proof (cases "exists fs xs")
    case True
    note cm = can_make_present[OF wf True, of x]
    have allp: "\<And>q. prefix q xs \<Longrightarrow> exists fs q" using wf_prefix[OF wf True] by blast
    show ?thesis
    proof (cases "nodes fs xs")
      case None
      with True show ?thesis by (simp add: exists_def)
    next
      case (Some n)
      show ?thesis
      proof (cases n)
        case (File c)
        with Some have nd: "\<not> is_dir fs xs" by (simp add: is_dir_def)
        with wf_parent_dir[OF wf] have ne: "\<not> exists fs ?p" by blast
        then have "\<not> is_dir fs ?p" using is_dir_exists by blast
        with Some File have "path_mkdir fs ?p = (fs, Some NotADirectoryError)"
          by (subst path_mkdir.simps) (simp add: os_mkdir_def par)
        with cm nd show ?thesis by simp
      next
        case (Dir w)
        with Some have d: "is_dir fs xs" and wr: "writable fs xs = w"
          by (simp_all add: is_dir_def writable_def)
        show ?thesis
        proof (cases "exists fs ?p")
          case E: True
          show ?thesis
          proof (cases "is_dir fs ?p")
            case D: True
            have "made_dirs fs ?p = fs"
              using allp E by (intro made_dirs_all_present) auto
            moreover from Some Dir E D have "path_mkdir fs ?p = (fs, None)"
              by (subst path_mkdir.simps) (simp add: os_mkdir_def par)
            ultimately show ?thesis using cm d E D by simp
          next
            case ND: False
            from Some Dir E ND have "path_mkdir fs ?p = (fs, Some FileExistsError)"
              by (subst path_mkdir.simps) (simp add: os_mkdir_def par)
            with cm d E ND show ?thesis by simp
          qed
        next
          case NE: False
          then have nd: "\<not> is_dir fs ?p" using is_dir_exists by blast
          show ?thesis
          proof (cases w)
            case True
            from Some Dir NE True have "path_mkdir fs ?p = (put fs ?p (Dir True), None)"
              by (subst path_mkdir.simps) (simp add: os_mkdir_def par)
            with made_dirs_last[OF allp NE] cm d NE wr True show ?thesis by simp
          next
            case False
            from Some Dir NE nd False have "path_mkdir fs ?p = (fs, Some PermissionError)"
              by (subst path_mkdir.simps) (simp add: os_mkdir_def par)
            with cm d NE wr False show ?thesis by simp
          qed
        qed
      qed
    qed
  next
    case False
    note ca = can_make_absent[OF wf False, of x]
    note ne = wf_child_missing[OF wf False, of x]
    from False have nx: "nodes fs xs = None" by (simp add: exists_def)
    have unf: "path_mkdir fs ?p =
        (case path_mkdir fs xs of
           (fs1, Some e1) \<Rightarrow> (fs1, Some e1)
         | (fs1, None) \<Rightarrow> mkdir_exist_ok fs1 ?p)"
      using nx by (subst path_mkdir.simps) (simp add: os_mkdir_def par)
    show ?thesis
    proof (cases "can_make_dirs fs xs")
      case True
      with snoc.IH have rec: "path_mkdir fs xs = (made_dirs fs xs, None)" by simp
      have px: "nodes (made_dirs fs xs) xs = Some (Dir True)"
        using False by (simp add: made_dirs_nodes)
      have pp: "nodes (made_dirs fs xs) ?p = None"
        using ne by (simp add: made_dirs_nodes exists_def)
      have "mkdir_exist_ok (made_dirs fs xs) ?p = (put (made_dirs fs xs) ?p (Dir True), None)"
        using px pp by (simp add: mkdir_exist_ok_def os_mkdir_def par exists_def)
      with unf rec made_dirs_step[OF ne] ca True show ?thesis by simp
    next
      case F: False
      with snoc.IH obtain e where rec: "path_mkdir fs xs = (fs, Some e)"
        by (cases "path_mkdir fs xs") (auto split: if_splits)
      with unf ca F show ?thesis by simp
    qed
  qed
qed

lemma made_dirs_finite:
  assumes "finite (dom (nodes fs))"
  shows "finite (dom (nodes (made_dirs fs p)))"
proof -
  have "dom (nodes (made_dirs fs p)) \<subseteq> dom (nodes fs) \<union> set (prefixes p)"
    by (auto simp: made_dirs_nodes dom_def split: if_splits)
  with assms show ?thesis by (meson List.finite_set finite_UnI finite_subset)
qed

lemma made_dirs_is_dir:
  assumes "can_make_dirs fs p" and "prefix q p"
  shows "is_dir (made_dirs fs p) q"
proof (cases "exists fs q")
  case True
  with assms have "is_dir fs q" unfolding can_make_dirs_iff by blast
  with True show ?thesis by (simp add: is_dir_def made_dirs_nodes)
next
  case False
  with assms(2) show ?thesis by (simp add: is_dir_def made_dirs_nodes)
qed

section \<open>A dry-run move still creates directories\<close>

text \<open>
  C10. In \<open>safe_move\<close> the parent of the destination base is created, with all
  its missing ancestors, before the dry-run flag is looked at. On a well-formed
  filesystem with \<open>dry_run\<close> set: when that parent can be made, the call returns
  the would-be destination with a record tagged \<open>dry-run\<close>, in the state where
  every missing ancestor of the destination base is a new writable directory; every
  ancestor is then a directory, every node that existed is unchanged, nothing else is
  new, and the state differs from the one before whenever the parent was missing. So
  the call relocates nothing and still mutates the filesystem. When the parent cannot be
  made, the call raises and the filesystem is as before.
\<close>

theorem dry_run_creates_parents:
  assumes wf: "wf_fs fs"
  shows "(can_make_dirs fs (parent (dest_path_of src dst_dir preserve target_root)) \<longrightarrow>
            (\<exists>final_dest.
               safe_move now fs src dst_dir preserve target_root True
                 = Some (made_dirs fs (parent (dest_path_of src dst_dir preserve target_root)),
                     Inr (final_dest,
                       metadata src final_dest
                         (size_if_exists
                            (made_dirs fs (parent (dest_path_of src dst_dir preserve target_root)))
                            src)
                         now ''dry-run'')))
            \<and> (\<forall>q. prefix q (parent (dest_path_of src dst_dir preserve target_root)) \<longrightarrow>
                   is_dir (made_dirs fs (parent (dest_path_of src dst_dir preserve target_root))) q)
            \<and> (\<forall>q. exists fs q \<longrightarrow>
                   nodes (made_dirs fs (parent (dest_path_of src dst_dir preserve target_root))) q
                     = nodes fs q)
            \<and> (\<forall>q. \<not> exists fs q \<longrightarrow>
                   nodes (made_dirs fs (parent (dest_path_of src dst_dir preserve target_root))) q
                     = (if prefix q (parent (dest_path_of src dst_dir preserve target_root))
                        then Some (Dir True) else None))
            \<and> (\<not> exists fs (parent (dest_path_of src dst_dir preserve target_root)) \<longrightarrow>
                   made_dirs fs (parent (dest_path_of src dst_dir preserve target_root)) \<noteq> fs))
     \<and> (\<not> can_make_dirs fs (parent (dest_path_of src dst_dir preserve target_root)) \<longrightarrow>
            (\<exists>e. safe_move now fs src dst_dir preserve target_root True = Some (fs, Inl e)))"
proof -
  let ?d = "parent (dest_path_of src dst_dir preserve target_root)"
  let ?dest = "dest_path_of src dst_dir preserve target_root"
  note pm = path_mkdir_result[OF wf, of ?d]
  have fin1: "finite (dom (nodes (made_dirs fs ?d)))"
    using wf by (intro made_dirs_finite) (simp add: wf_fs_def)
  have u: "\<exists>final_dest. unique_path_if_exists (made_dirs fs ?d) ?dest = Some final_dest"
  proof (cases "exists (made_dirs fs ?d) ?dest")
    case True
    from unique_occupied[OF fin1 True] show ?thesis by blast
  next
    case False
    then show ?thesis by (simp add: unique_vacant)
  qed
  have a: "can_make_dirs fs ?d \<longrightarrow>
            (\<exists>final_dest.
               safe_move now fs src dst_dir preserve target_root True
                 = Some (made_dirs fs ?d,
                     Inr (final_dest,
                       metadata src final_dest (size_if_exists (made_dirs fs ?d) src)
                         now ''dry-run'')))"
  proof
    assume c: "can_make_dirs fs ?d"
    with pm have "path_mkdir fs ?d = (made_dirs fs ?d, None)" by simp
    with u show "\<exists>final_dest.
               safe_move now fs src dst_dir preserve target_root True
                 = Some (made_dirs fs ?d,
                     Inr (final_dest,
                       metadata src final_dest (size_if_exists (made_dirs fs ?d) src)
                         now ''dry-run''))"
      by (auto simp: safe_move_def Let_def)
  qed
  have b: "can_make_dirs fs ?d \<longrightarrow> (\<forall>q. prefix q ?d \<longrightarrow> is_dir (made_dirs fs ?d) q)"
    using made_dirs_is_dir by blast
  have c: "\<forall>q. exists fs q \<longrightarrow> nodes (made_dirs fs ?d) q = nodes fs q"
    by (simp add: made_dirs_nodes)
  have d: "\<forall>q. \<not> exists fs q \<longrightarrow>
                   nodes (made_dirs fs ?d) q = (if prefix q ?d then Some (Dir True) else None)"
    by (simp add: made_dirs_nodes exists_def)
  have e: "\<not> exists fs ?d \<longrightarrow> made_dirs fs ?d \<noteq> fs"
  proof
    assume n: "\<not> exists fs ?d"
    then have "nodes (made_dirs fs ?d) ?d = Some (Dir True)" by (simp add: made_dirs_nodes)
    with n show "made_dirs fs ?d \<noteq> fs" by (auto simp: exists_def)
  qed
  have f: "\<not> can_make_dirs fs ?d \<longrightarrow>
            (\<exists>e. safe_move now fs src dst_dir preserve target_root True = Some (fs, Inl e))"
  proof
    assume n: "\<not> can_make_dirs fs ?d"
    with pm obtain e where "path_mkdir fs ?d = (fs, Some e)"
      by (cases "path_mkdir fs ?d") auto
    then show "\<exists>e. safe_move now fs src dst_dir preserve target_root True = Some (fs, Inl e)"
      by (simp add: safe_move_def Let_def)
  qed
  from a b c d e f show ?thesis by blast
qed

theorem dry_run_creates_parents_witness:
  "wf_fs fs_deep
   \<and> \<not> exists fs_deep [''q''] \<and> \<not> exists fs_deep [''q'', ''d'']
   \<and> \<not> exists fs_deep [''q'', ''d'', ''e'']
   \<and> can_make_dirs fs_deep [''q'', ''d'', ''e'']
   \<and> (\<exists>fs1. safe_move ''2024-01-01 00:00:00'' fs_deep [''t'', ''d'', ''e'', ''a.txt''] [''q'']
               True [''t''] True
             = Some (fs1, Inr ([''q'', ''d'', ''e'', ''a.txt''],
                 metadata [''t'', ''d'', ''e'', ''a.txt''] [''q'', ''d'', ''e'', ''a.txt'']
                   (JNum 0) ''2024-01-01 00:00:00'' ''dry-run''))
        \<and> nodes fs1 [''q''] = Some (Dir True)
        \<and> nodes fs1 [''q'', ''d''] = Some (Dir True)
        \<and> nodes fs1 [''q'', ''d'', ''e''] = Some (Dir True)
        \<and> fs1 \<noteq> fs_deep
        \<and> nodes fs1 [''t'', ''d'', ''e'', ''a.txt''] = Some (File []))"
proof -
  let ?src = "[''t'', ''d'', ''e'', ''a.txt'']"
  let ?d = "[''q'', ''d'', ''e'']"
  have wf: "wf_fs fs_deep" by (simp add: wf_fs_def fs_deep_def eval_fs parent_def)
  have ne: "\<not> exists fs_deep [''q'']" "\<not> exists fs_deep [''q'', ''d'']" "\<not> exists fs_deep ?d"
    by (simp_all add: fs_deep_def eval_fs)
  have src: "exists fs_deep ?src" "nodes fs_deep ?src = Some (File [])"
    by (simp_all add: fs_deep_def eval_fs)
  have dp: "parent (dest_path_of ?src [''q''] True [''t'']) = ?d"
    by (simp add: dest_path_of_def parent_def)
  have c: "can_make_dirs fs_deep ?d"
    by (simp add: can_make_dirs_def fs_deep_def eval_fs)
  have s: "\<exists>fs1. safe_move ''2024-01-01 00:00:00'' fs_deep ?src [''q''] True [''t''] True
         = Some (fs1, Inr ([''q'', ''d'', ''e'', ''a.txt''],
                 metadata ?src [''q'', ''d'', ''e'', ''a.txt''] (JNum 0)
                   ''2024-01-01 00:00:00'' ''dry-run''))"
    by (simp add: fs_deep_def eval_move eval_mkdir eval_ops eval_fs eval_names)
  from dry_run_creates_parents[OF wf, of ?src "[''q'']" True "[''t'']" "''2024-01-01 00:00:00''"]
    c s ne src
  have "\<exists>fs1. safe_move ''2024-01-01 00:00:00'' fs_deep ?src [''q''] True [''t''] True
             = Some (fs1, Inr ([''q'', ''d'', ''e'', ''a.txt''],
                 metadata ?src [''q'', ''d'', ''e'', ''a.txt''] (JNum 0)
                   ''2024-01-01 00:00:00'' ''dry-run''))
        \<and> nodes fs1 [''q''] = Some (Dir True)
        \<and> nodes fs1 [''q'', ''d''] = Some (Dir True)
        \<and> nodes fs1 ?d = Some (Dir True)
        \<and> fs1 \<noteq> fs_deep
        \<and> nodes fs1 ?src = Some (File [])"
    unfolding dp by auto
  with wf ne c show ?thesis by blast
qed

section \<open>The dry-run scan\<close>

text \<open>
  C8, as the code has it. With \<open>--dry-run\<close> the scan flow returns before a
  quarantine directory is made and before any move: the filesystem is left as it was,
  and when the target is a directory holding empty files the lines printed are the
  heading, one line with the path of each discovered empty file, and the dry-run notice.
  No destination is computed or printed.
\<close>

theorem dry_run_scan:
  assumes dry: "arg_dry_run args"
  shows "(\<exists>out st. main_scan loads env args fs = Some (fs, out, st))
     \<and> (is_dir fs (arg_target args)
          \<and> find_empty_files fs (env_listing env) (arg_ignore_hidden args) \<noteq> [] \<longrightarrow>
        main_scan loads env args fs
          = Some (fs,
              ''Empty files found:''
                # map (\<lambda>f. '' - '' @ str_path f)
                    (find_empty_files fs (env_listing env) (arg_ignore_hidden args))
                @ [CHR 0x0A # ''Dry-run: no files were moved.''],
              Returned))"
  using dry
  by (auto simp: main_scan_def Let_def found_lines_def is_dir_def exists_def
      split: option.splits node.splits)

theorem dry_run_scan_witness:
  "arg_dry_run args_dry
   \<and> main_scan no_decoder env0 args_dry fs_before
       = Some (fs_before,
           [''Empty files found:'', '' - /t/a.txt'',
            CHR 0x0A # ''Dry-run: no files were moved.''], Returned)"
proof -
  have d: "arg_dry_run args_dry" by (simp add: args_dry_def)
  have t: "is_dir fs_before (arg_target args_dry)"
    by (simp add: args_dry_def fs_before_def eval_fs)
  have f: "find_empty_files fs_before (env_listing env0) (arg_ignore_hidden args_dry)
           = [[''t'', ''a.txt'']]"
    by (simp add: find_empty_files_def env0_def args_dry_def fs_before_def eval_fs
        startswith_dot_def)
  from dry_run_scan[OF d, of no_decoder env0 fs_before] t f d show ?thesis
    by (simp add: str_path_def)
qed

text \<open>
  C8, as stated, fails: the destination a dry-run \<open>safe_move\<close> would choose for
  the discovered file appears in no line of the report.
\<close>

theorem dry_run_report_has_no_destination:
  "(\<exists>fs1 meta. safe_move (env_clock env0 0) fs_before [''t'', ''a.txt'']
       [''quarantine-20240101-000000''] False [''t''] True
      = Some (fs1, Inr ([''quarantine-20240101-000000'', ''a.txt''], meta)))
   \<and> main_scan no_decoder env0 args_dry fs_before
       = Some (fs_before,
           [''Empty files found:'', '' - /t/a.txt'',
            CHR 0x0A # ''Dry-run: no files were moved.''], Returned)
   \<and> \<not> list_ex (sublist (str_path [''quarantine-20240101-000000'', ''a.txt'']))
         [''Empty files found:'', '' - /t/a.txt'',
            CHR 0x0A # ''Dry-run: no files were moved.'']"
proof (intro conjI)
  show "\<exists>fs1 meta. safe_move (env_clock env0 0) fs_before [''t'', ''a.txt'']
       [''quarantine-20240101-000000''] False [''t''] True
      = Some (fs1, Inr ([''quarantine-20240101-000000'', ''a.txt''], meta))"
    by (simp add: env0_def clock0_def fs_before_def eval_move eval_mkdir eval_ops eval_fs
        eval_names)
  show "main_scan no_decoder env0 args_dry fs_before
       = Some (fs_before,
           [''Empty files found:'', '' - /t/a.txt'',
            CHR 0x0A # ''Dry-run: no files were moved.''], Returned)"
    by (simp add: main_scan_def Let_def found_lines_def find_empty_files_def env0_def
        args_dry_def fs_before_def eval_fs startswith_dot_def str_path_def)
  show "\<not> list_ex (sublist (str_path [''quarantine-20240101-000000'', ''a.txt'']))
         [''Empty files found:'', '' - /t/a.txt'',
            CHR 0x0A # ''Dry-run: no files were moved.'']"
    by (simp add: str_path_def sublist_Cons_right)
qed

section \<open>Journal append\<close>

lemma load_existing_cases:
  "(\<not> exists fs mf \<longrightarrow> load_existing loads fs mf = JArr [])
   \<and> (\<forall>txt. nodes fs mf = Some (File txt) \<and> loads txt = None \<longrightarrow>
         load_existing loads fs mf = JArr [])
   \<and> (\<forall>txt j. nodes fs mf = Some (File txt) \<and> loads txt = Some j \<longrightarrow>
         load_existing loads fs mf = j)"
  by (auto simp: load_existing_def read_text_def exists_def)

lemma write_metadata_written:
  assumes "write_metadata loads fs q records = (fs', None)"
  shows "\<exists>existing. load_existing loads fs (meta_file q) = JArr existing
           \<and> nodes fs' (meta_file q)
               = Some (File (py_dumps 2 (JArr (existing @ records))))
           \<and> (\<forall>p. p \<noteq> meta_file q \<longrightarrow> nodes fs' p = nodes fs p)"
  using assms
  by (auto simp: write_metadata_def write_text_def put_def
      split: json.splits sum.splits option.splits node.splits if_splits)

lemma write_metadata_succeeds:
  assumes "writable fs q" and "\<not> is_dir fs (meta_file q)"
    and "load_existing loads fs (meta_file q) = JArr existing"
  shows "write_metadata loads fs q records
         = (put fs (meta_file q) (File (py_dumps 2 (JArr (existing @ records)))), None)"
  using assms
  by (auto simp: write_metadata_def write_text_def writable_def is_dir_def meta_file_def
      joinpath_def parent_def split: option.splits node.splits)

lemma safe_move_record:
  assumes "safe_move now fs src dst_dir preserve target_root dry_run
           = Some (fs1, Inr (dest, meta))"
  shows "\<exists>sz. meta = metadata src dest sz now (if dry_run then ''dry-run'' else ''moved'')
           \<and> (sz = JNull \<or> (\<exists>n. sz = JNum (int n)))"
  using assms
  by (auto simp: safe_move_def Let_def size_if_exists_def
      split: prod.splits option.splits if_splits)

text \<open>
  C6. An existing journal that decodes to a value other than a list makes
  \<open>write_metadata\<close> raise: \<open>existing.extend\<close> stands outside the \<open>try\<close>
  that guards decoding. Here the journal holds \<open>{}\<close>; the call raises
  \<open>AttributeError\<close> and writes nothing.
\<close>

theorem write_metadata_raises_on_object:
  "nodes fs_bad_journal (meta_file [''q'']) = Some (File ''{}'')
   \<and> object_decoder ''{}'' = Some (JObj [])
   \<and> write_metadata object_decoder fs_bad_journal [''q''] [moved_record]
       = (fs_bad_journal, Some AttributeError)"
  by (simp add: write_metadata_def load_existing_def read_text_def meta_file_def joinpath_def
      object_decoder_def table_decoder_def fs_bad_journal_def eval_fs)

theorem write_metadata_raises_on_object_witness:
  "snd (write_metadata object_decoder fs_bad_journal [''q''] [moved_record])
     = Some AttributeError
   \<and> nodes (fst (write_metadata object_decoder fs_bad_journal [''q''] [moved_record]))
        [''q'', ''metadata.json''] = Some (File ''{}'')"
  using write_metadata_raises_on_object by (simp add: meta_file_def joinpath_def)

section \<open>The journal on disk\<close>

text \<open>
  C9, as the code has it. The record \<open>safe_move\<close> returns has exactly the keys
  \<open>original\<close>, \<open>moved_to\<close>, \<open>size\<close>, \<open>time\<close> and \<open>action\<close>, in this
  order; the action is \<open>dry-run\<close> or \<open>moved\<close> according to the flag, the size
  an integer or null. When \<open>write_metadata\<close> returns, the file
  \<open>metadata.json\<close> in the quarantine directory holds the JSON array of the entries
  found there before followed by the new records, serialised with an indentation of 2:
  for a non-empty array each entry starts on a line of its own behind two spaces.
\<close>

theorem journal_format:
  "(safe_move now fs src dst_dir preserve target_root dry_run = Some (fs1, Inr (dest, meta))
      \<longrightarrow> (\<exists>sz. meta = JObj [(''original'', JStr (str_path src)),
                              (''moved_to'', JStr (str_path dest)),
                              (''size'', sz),
                              (''time'', JStr now),
                              (''action'', JStr (if dry_run then ''dry-run'' else ''moved''))]
                \<and> (sz = JNull \<or> (\<exists>n. sz = JNum (int n)))))
   \<and> (write_metadata loads fs2 quarantine_dir records = (fs3, None)
      \<longrightarrow> (\<exists>existing. load_existing loads fs2 (joinpath quarantine_dir ''metadata.json'')
                          = JArr existing
             \<and> nodes fs3 (joinpath quarantine_dir ''metadata.json'')
                 = Some (File (py_dumps 2 (JArr (existing @ records))))))
   \<and> (records \<noteq> [] \<longrightarrow>
        py_dumps 2 (JArr records)
          = ''['' @ [CHR 0x0A] @ ''  ''
            @ join_with ('','' @ [CHR 0x0A] @ ''  '') (map (dumps_at 2 1) records)
            @ [CHR 0x0A] @ '']'')"
proof (intro conjI impI)
  assume "safe_move now fs src dst_dir preserve target_root dry_run = Some (fs1, Inr (dest, meta))"
  from safe_move_record[OF this]
  show "\<exists>sz. meta = JObj [(''original'', JStr (str_path src)),
                              (''moved_to'', JStr (str_path dest)),
                              (''size'', sz),
                              (''time'', JStr now),
                              (''action'', JStr (if dry_run then ''dry-run'' else ''moved''))]
                \<and> (sz = JNull \<or> (\<exists>n. sz = JNum (int n)))"
    by (simp add: metadata_def)
next
  assume "write_metadata loads fs2 quarantine_dir records = (fs3, None)"
  from write_metadata_written[OF this]
  show "\<exists>existing. load_existing loads fs2 (joinpath quarantine_dir ''metadata.json'')
                          = JArr existing
             \<and> nodes fs3 (joinpath quarantine_dir ''metadata.json'')
                 = Some (File (py_dumps 2 (JArr (existing @ records))))"
    by (auto simp: meta_file_def)
next
  assume "records \<noteq> []"
  then show "py_dumps 2 (JArr records)
          = ''['' @ [CHR 0x0A] @ ''  ''
            @ join_with ('','' @ [CHR 0x0A] @ ''  '') (map (dumps_at 2 1) records)
            @ [CHR 0x0A] @ '']''"
    by (simp add: py_dumps_def newline_indent_def numeral_2_eq_2)
qed

theorem journal_format_witness:
  "(\<exists>fs1 fs3.
      safe_move ''2024-01-01 00:00:00'' fs_scan [''t'', ''a.txt''] [''q''] False [''t''] False
        = Some (fs1, Inr ([''q'', ''a.txt''], moved_record))
      \<and> moved_record = JObj [(''original'', JStr ''/t/a.txt''), (''moved_to'', JStr ''/q/a.txt''),
           (''size'', JNum 0), (''time'', JStr ''2024-01-01 00:00:00''),
           (''action'', JStr ''moved'')]
      \<and> write_metadata no_decoder fs1 [''q''] [moved_record] = (fs3, None)
      \<and> nodes fs3 [''q'', ''metadata.json'']
          = Some (File (''['' @ [CHR 0x0A]
              @ ''  {'' @ [CHR 0x0A]
              @ ''    '' @ quoted ''original'' @ '': '' @ quoted ''/t/a.txt'' @ '','' @ [CHR 0x0A]
              @ ''    '' @ quoted ''moved_to'' @ '': '' @ quoted ''/q/a.txt'' @ '','' @ [CHR 0x0A]
              @ ''    '' @ quoted ''size'' @ '': 0,'' @ [CHR 0x0A]
              @ ''    '' @ quoted ''time'' @ '': '' @ quoted ''2024-01-01 00:00:00'' @ '',''
              @ [CHR 0x0A]
              @ ''    '' @ quoted ''action'' @ '': '' @ quoted ''moved'' @ [CHR 0x0A]
              @ ''  }'' @ [CHR 0x0A]
              @ '']'')))"
proof -
  obtain fs1 where
    s: "safe_move ''2024-01-01 00:00:00'' fs_scan [''t'', ''a.txt''] [''q''] False [''t''] False
        = Some (fs1, Inr ([''q'', ''a.txt''], moved_record))"
    and n1: "nodes fs1 [''q'', ''metadata.json''] = None" "nodes fs1 [''q''] = Some (Dir True)"
    by (simp add: moved_record_def fs_scan_def eval_move eval_mkdir eval_ops eval_fs eval_names)
  have m: "moved_record = JObj [(''original'', JStr ''/t/a.txt''), (''moved_to'', JStr ''/q/a.txt''),
           (''size'', JNum 0), (''time'', JStr ''2024-01-01 00:00:00''),
           (''action'', JStr ''moved'')]"
    by (simp add: moved_record_def metadata_def str_path_def)
  obtain fs3 r where w: "write_metadata no_decoder fs1 [''q''] [moved_record] = (fs3, r)"
    by (cases "write_metadata no_decoder fs1 [''q''] [moved_record]")
  have le: "load_existing no_decoder fs1 (joinpath [''q''] ''metadata.json'') = JArr []"
    using n1 by (simp add: load_existing_def exists_def joinpath_def)
  have r: "r = None" using w n1 le
    by (auto simp: write_metadata_def write_text_def meta_file_def joinpath_def parent_def)
  have dumped: "py_dumps 2 (JArr [moved_record])
     = ''['' @ [CHR 0x0A]
              @ ''  {'' @ [CHR 0x0A]
              @ ''    '' @ quoted ''original'' @ '': '' @ quoted ''/t/a.txt'' @ '','' @ [CHR 0x0A]
              @ ''    '' @ quoted ''moved_to'' @ '': '' @ quoted ''/q/a.txt'' @ '','' @ [CHR 0x0A]
              @ ''    '' @ quoted ''size'' @ '': 0,'' @ [CHR 0x0A]
              @ ''    '' @ quoted ''time'' @ '': '' @ quoted ''2024-01-01 00:00:00'' @ '',''
              @ [CHR 0x0A]
              @ ''    '' @ quoted ''action'' @ '': '' @ quoted ''moved'' @ [CHR 0x0A]
              @ ''  }'' @ [CHR 0x0A]
              @ '']''"
    by (simp add: m eval_dumps str_nat.simps digit_def eval_nat_numeral)
  from journal_format[of "''2024-01-01 00:00:00''" fs_scan "[''t'', ''a.txt'']" "[''q'']" False
      "[''t'']" False fs1 "[''q'', ''a.txt'']" moved_record no_decoder fs1 "[''q'']"
      "[moved_record]" fs3] s w r le
  have "nodes fs3 (joinpath [''q''] ''metadata.json'')
         = Some (File (py_dumps 2 (JArr [moved_record])))" by simp
  with dumped have "nodes fs3 [''q'', ''metadata.json'']
          = Some (File (''['' @ [CHR 0x0A]
              @ ''  {'' @ [CHR 0x0A]
              @ ''    '' @ quoted ''original'' @ '': '' @ quoted ''/t/a.txt'' @ '','' @ [CHR 0x0A]
              @ ''    '' @ quoted ''moved_to'' @ '': '' @ quoted ''/q/a.txt'' @ '','' @ [CHR 0x0A]
              @ ''    '' @ quoted ''size'' @ '': 0,'' @ [CHR 0x0A]
              @ ''    '' @ quoted ''time'' @ '': '' @ quoted ''2024-01-01 00:00:00'' @ '',''
              @ [CHR 0x0A]
              @ ''    '' @ quoted ''action'' @ '': '' @ quoted ''moved'' @ [CHR 0x0A]
              @ ''  }'' @ [CHR 0x0A]
              @ '']''))" by (simp add: joinpath_def)
  with s m w r show ?thesis by blast
qed

text \<open>
  C9, as stated, fails: a record that \<open>safe_move\<close> returns has no field named
  \<open>timestamp\<close>; the clock reading is stored under \<open>time\<close>.
\<close>

theorem record_has_no_timestamp_field:
  "\<exists>fs1 kv.
      safe_move ''2024-01-01 00:00:00'' fs_scan [''t'', ''a.txt''] [''q''] False [''t''] False
        = Some (fs1, Inr ([''q'', ''a.txt''], JObj kv))
      \<and> map fst kv = [''original'', ''moved_to'', ''size'', ''time'', ''action'']
      \<and> dict_get kv ''timestamp'' = None"
  by (simp add: fs_scan_def eval_move eval_mkdir eval_ops eval_fs eval_names metadata_def
      dict_get_def)

section \<open>Quarantine, then restore\<close>

lemma py_dumps_array_nonempty: "py_dumps ind (JArr xs) \<noteq> []"
  by (simp add: py_dumps_def)

lemma journal_decoder_empty: "journal_decoder [] = None"
  by (simp add: journal_decoder_def table_decoder_def journal_written_def
      py_dumps_array_nonempty[THEN not_sym])

lemma journal_decoder_written: "journal_decoder (py_dumps 2 journal_written) = Some journal_written"
  by (simp add: journal_decoder_def table_decoder_def)

text \<open>
  C1. The round trip fails for an empty file named \<open>metadata.json\<close>. The scan moves
  it to \<open>metadata.json\<close> in the quarantine directory, which is where
  \<open>write_metadata\<close> then writes the journal, over the quarantined file. Restore
  without overwrite reads that journal, reports the record restored with nothing skipped
  and no error, and moves the file back to its original path: it now holds the text of
  the journal, not zero bytes, and the quarantine directory has lost its journal.
\<close>

theorem round_trip_returns_journal_text:
  "\<exists>fs1 out fs2.
     find_empty_files fs_journal_name (env_listing env_journal_name) True
       = [[''t'', ''metadata.json'']]
     \<and> nodes fs_journal_name [''t'', ''metadata.json''] = Some (File [])
     \<and> main_scan journal_decoder env_journal_name args_move fs_journal_name
         = Some (fs1, out, Returned)
     \<and> restore_from_quarantine journal_decoder fs1 [''quarantine-20240101-000000''] False False
         = Some (fs2, Inr (Summary \<lparr>restored = [([''t'', ''metadata.json''],
                     [''quarantine-20240101-000000'', ''metadata.json''])],
                   skipped = [], errors = []\<rparr>))
     \<and> nodes fs2 [''t'', ''metadata.json''] = Some (File (py_dumps 2 journal_written))
     \<and> st_size fs2 [''t'', ''metadata.json''] \<noteq> 0"
proof -
  let ?o = "[''t'', ''metadata.json'']"
  let ?q = "[''quarantine-20240101-000000'']"
  let ?m = "[''quarantine-20240101-000000'', ''metadata.json'']"
  have f: "find_empty_files fs_journal_name (env_listing env_journal_name) True = [?o]"
    by (simp add: find_empty_files_def env_journal_name_def fs_journal_name_def eval_fs
        startswith_dot_def)
  have n0: "nodes fs_journal_name ?o = Some (File [])"
    by (simp add: fs_journal_name_def eval_fs)
  obtain fs1 out where ms: "main_scan journal_decoder env_journal_name args_move fs_journal_name
         = Some (fs1, out, Returned)"
    and n1: "nodes fs1 ?q = Some (Dir True)"
      "nodes fs1 ?m = Some (File (py_dumps 2 journal_written))" "nodes fs1 ?o = None"
      "nodes fs1 [''t''] = Some (Dir True)"
    using journal_decoder_empty
    by (simp add: main_scan_def Let_def env_journal_name_def args_move_def
        fs_journal_name_def find_empty_files_def startswith_dot_def make_quarantine_dir_def
        clock0_def eval_move eval_mkdir eval_ops eval_fs eval_names
        write_metadata_def load_existing_def meta_file_def journal_written_def)
  obtain fs2 where rs: "restore_records fs1 False False
        [metadata ?o ?m (JNum 0) ''2024-01-01 00:00:00'' ''moved''] empty_report
      = Some (fs2, Inr \<lparr>restored = [(?o, ?m)], skipped = [], errors = []\<rparr>)"
    and n2: "nodes fs2 ?o = Some (File (py_dumps 2 journal_written))"
    using n1
    by (simp add: restore_entry_def restore_paths_def empty_report_def eval_json eval_fs
        eval_ops parent_def)
  have rq: "restore_from_quarantine journal_decoder fs1 ?q False False
         = Some (fs2, Inr (Summary \<lparr>restored = [(?o, ?m)], skipped = [], errors = []\<rparr>))"
    using n1 rs journal_decoder_written
    by (simp add: restore_from_quarantine_def meta_file_def joinpath_def exists_def
        read_text_def py_iter_def journal_written_def)
  have sz: "st_size fs2 ?o \<noteq> 0"
    using n2 py_dumps_array_nonempty[of 2] by (simp add: st_size_def journal_written_def)
  from f n0 ms rq n2 sz show ?thesis by blast
qed

theorem round_trip_returns_journal_text_witness:
  "\<exists>fs1 out fs2 rep.
     main_scan journal_decoder env_journal_name args_move fs_journal_name
       = Some (fs1, out, Returned)
     \<and> restore_from_quarantine journal_decoder fs1 [''quarantine-20240101-000000''] False False
         = Some (fs2, Inr (Summary rep))
     \<and> skipped rep = [] \<and> errors rep = []
     \<and> nodes fs_journal_name [''t'', ''metadata.json''] = Some (File [])
     \<and> nodes fs2 [''t'', ''metadata.json''] \<noteq> Some (File [])"
proof -
  from round_trip_returns_journal_text obtain fs1 out fs2 where
    a: "nodes fs_journal_name [''t'', ''metadata.json''] = Some (File [])"
      "main_scan journal_decoder env_journal_name args_move fs_journal_name
         = Some (fs1, out, Returned)"
      "restore_from_quarantine journal_decoder fs1 [''quarantine-20240101-000000''] False False
         = Some (fs2, Inr (Summary \<lparr>restored = [([''t'', ''metadata.json''],
                     [''quarantine-20240101-000000'', ''metadata.json''])],
                   skipped = [], errors = []\<rparr>))"
      "st_size fs2 [''t'', ''metadata.json''] \<noteq> 0" by blast
  from a(4) have "nodes fs2 [''t'', ''metadata.json''] \<noteq> Some (File [])"
    by (auto simp: st_size_def)
  with a(1-3) show ?thesis by fastforce
qed

end
